theory Spec2Isabelle
  imports Complex_Main "HOL-Library.Multiset"
begin

section \<open>Robot salary calculator: day segments, break schedules and minute accounting\<close>

text \<open>
  A shallow embedding of \<^verbatim>\<open>workdays.py\<close> and \<^verbatim>\<open>main.py\<close>.

  Conventions of the model.
  \<^item> The values built by \<^verbatim>\<open>datetime.strptime(_, "%H:%M:%S")\<close> and
    \<^verbatim>\<open>datetime.strptime(_, "%H%M")\<close> all lie on the date 1900-01-01. Such a value is
    the integer number of seconds since 1900-01-01T00:00:00, so that subtracting a
    \<^verbatim>\<open>timedelta\<close> is integer subtraction and may go below zero, as in Python.
  \<^item> A shift timestamp is a record of its calendar fields; comparison and subtraction
    go through the proleptic Gregorian ordinal, as in Python's \<^verbatim>\<open>datetime\<close>.
  \<^item> The string \<^verbatim>\<open>time_of_last_break\<close> is a four-digit string "HHMM"; it is
    represented by its two two-digit numbers.
  \<^item> Python computes the minutes as floats (\<^verbatim>\<open>seconds / 60\<close>); the model computes
    them as exact rationals.
  \<^item> The range limits of \<^verbatim>\<open>datetime\<close> (years 1 to 9999) are not modelled.
\<close>

subsection \<open>Errors\<close>

datatype hhmm = HHMM nat nat

datatype error =
    InvalidBreakTimeError hhmm
  | ValueError
  | UnboundLocalError

text \<open>
  A generator is run to its end: the values it yields, in order, and the exception that
  ended it, if one did.
\<close>

type_synonym gen_result = "int list \<times> error option"

subsection \<open>Times\<close>

definition hm :: "int \<Rightarrow> int \<Rightarrow> int" where
  "hm h m = h * 3600 + m * 60"

definition hms :: "int \<Rightarrow> int \<Rightarrow> int \<Rightarrow> int" where
  "hms h m s = h * 3600 + m * 60 + s"

text \<open>
  \<^verbatim>\<open>datetime.strptime(f"{h:02d}{m}", "%H%M")\<close> for \<open>0 \<le> h < 100\<close> and
  \<open>0 \<le> m < 60\<close>: the hour is printed with two digits, the minute without padding.
  The directive \<^verbatim>\<open>%H\<close> matches \<^verbatim>\<open>2[0-3]|[0-1]\d|\d\<close> and \<^verbatim>\<open>%M\<close> matches
  \<^verbatim>\<open>[0-5]\d|\d\<close>; text left over is a \<^verbatim>\<open>ValueError\<close>. For an hour below 24 both
  digits are the hour and the rest is the minute. For an hour from 24 the hour is its
  first digit only, and the parse succeeds only when the second digit and a
  one-digit minute form the minute.
\<close>

definition strptime_HM :: "int \<Rightarrow> int \<Rightarrow> error + int" where
  "strptime_HM h m =
     (if h < 24 then Inr (hm h m)
      else if h mod 10 \<le> 5 \<and> m < 10 then Inr (hm (h div 10) ((h mod 10) * 10 + m))
      else Inl ValueError)"

text \<open>
  \<^verbatim>\<open>datetime.strptime(s, "%H%M")\<close> for a four-digit string: it parses exactly when the
  hour is below 24 and the minute below 60.
\<close>

fun strptime_HHMM :: "hhmm \<Rightarrow> error + int" where
  "strptime_HHMM (HHMM h m) =
     (if h < 24 \<and> m < 60 then Inr (hm (int h) (int m)) else Inl ValueError)"

text \<open>\<^verbatim>\<open>int(s[:2])\<close> and \<^verbatim>\<open>int(s[-2:])\<close> of a four-digit string.\<close>

fun hhmm_hour :: "hhmm \<Rightarrow> int" where
  "hhmm_hour (HHMM h m) = int h"

fun hhmm_minute :: "hhmm \<Rightarrow> int" where
  "hhmm_minute (HHMM h m) = int m"

text \<open>\<^verbatim>\<open>t.strftime("%H%M")\<close> of a time on 1900-01-01.\<close>

definition strftime_HHMM :: "int \<Rightarrow> hhmm" where
  "strftime_HHMM t = HHMM (nat (t div 3600)) (nat ((t mod 3600) div 60))"

text \<open>\<^verbatim>\<open>timedelta.seconds\<close>: the part of a difference below one day.\<close>

definition td_seconds :: "int \<Rightarrow> int" where
  "td_seconds d = d mod 86400"

text \<open>\<^verbatim>\<open>timedelta.days\<close>.\<close>

definition td_days :: "int \<Rightarrow> int" where
  "td_days d = d div 86400"

subsection \<open>The class \<^verbatim>\<open>RobotWorkDay\<close>\<close>

record RobotWorkDay =
  day_start :: int
  day_end :: int
  day_rate :: int
  night_rate :: int
  time_of_last_break :: hhmm
  work_duration_in_hours :: int
  break_duration_in_hours :: int

text \<open>
  \<^verbatim>\<open>__init__\<close>: an argument that is \<^verbatim>\<open>None\<close> or falsy (the number 0) takes its
  default.
\<close>

definition default_duration :: "int \<Rightarrow> int option \<Rightarrow> int" where
  "default_duration dflt v = (case v of None \<Rightarrow> dflt | Some w \<Rightarrow> if w = 0 then dflt else w)"

definition RobotWorkDay_init ::
  "int \<Rightarrow> int \<Rightarrow> int \<Rightarrow> int \<Rightarrow> hhmm option \<Rightarrow> int option \<Rightarrow> int option \<Rightarrow> RobotWorkDay" where
  "RobotWorkDay_init ds de dr nr tlb wd bd =
     \<lparr> day_start = ds, day_end = de, day_rate = dr, night_rate = nr,
       time_of_last_break = (case tlb of None \<Rightarrow> HHMM 0 0 | Some t \<Rightarrow> t),
       work_duration_in_hours = default_duration 8 wd,
       break_duration_in_hours = default_duration 1 bd \<rparr>"

text \<open>\<^verbatim>\<open>round(x, 2)\<close>, to the nearest hundredth, a tie to the even one.\<close>

definition py_round2 :: "rat \<Rightarrow> rat" where
  "py_round2 x =
     (let y = x * 100; f = \<lfloor>y\<rfloor>; r = y - of_int f
      in of_int (if r < 1 / 2 then f else if 1 / 2 < r then f + 1
                 else if even f then f else f + 1) / 100)"

text \<open>\<^verbatim>\<open>calculate_pay\<close>: the local \<^verbatim>\<open>pay\<close>, and the rounded value returned.\<close>

definition pay_before_rounding :: "'a RobotWorkDay_scheme \<Rightarrow> rat \<Rightarrow> rat \<Rightarrow> rat" where
  "pay_before_rounding self dm nm =
     dm * of_int (day_rate self) + nm * of_int (night_rate self)"

definition calculate_pay :: "'a RobotWorkDay_scheme \<Rightarrow> rat \<Rightarrow> rat \<Rightarrow> rat" where
  "calculate_pay self dm nm = py_round2 (pay_before_rounding self dm nm)"

text \<open>
  The hourly loop shared by the three generators (\<^verbatim>\<open>for hour in range(n)\<close>): \<open>n\<close>
  iterations are left, \<open>hour\<close> is the loop variable, \<open>mk\<close> builds the break time of an
  hour (it may raise).
\<close>

fun break_loop ::
  "int \<Rightarrow> int \<Rightarrow> (int \<Rightarrow> error + int) \<Rightarrow> nat \<Rightarrow> int \<Rightarrow> bool \<Rightarrow> int \<Rightarrow> int \<Rightarrow> gen_result" where
  "break_loop wd bd mk 0 hour isBreak hours_since_break break_hours_taken = ([], None)"
| "break_loop wd bd mk (Suc n) hour isBreak hours_since_break break_hours_taken =
     (if isBreak then
        (if break_hours_taken + 1 = bd
         then break_loop wd bd mk n (hour + 1) False hours_since_break 0
         else break_loop wd bd mk n (hour + 1) True hours_since_break (break_hours_taken + 1))
      else if hours_since_break = wd then
        (case mk hour of
           Inl e \<Rightarrow> ([], Some e)
         | Inr break_time_dt \<Rightarrow>
             (case break_loop wd bd mk n (hour + 1) True (0 + 1) break_hours_taken of
                (ts, err) \<Rightarrow> (break_time_dt # ts, err)))
      else break_loop wd bd mk n (hour + 1) False (hours_since_break + 1) break_hours_taken)"

text \<open>
  \<^verbatim>\<open>RobotWorkDay.get_break_timings\<close>. The check of \<^verbatim>\<open>time_of_last_break\<close> comes
  before the first \<^verbatim>\<open>yield\<close>; \<^verbatim>\<open>datetime(1900,1,2)\<close> is second 86400.
\<close>

definition latest_break_time :: "'a RobotWorkDay_scheme \<Rightarrow> int" where
  "latest_break_time self =
     86400 - break_duration_in_hours self * 3600 - work_duration_in_hours self * 3600"

definition get_break_timings :: "'a RobotWorkDay_scheme \<Rightarrow> gen_result" where
  "get_break_timings self =
     (let last_break_hour = hhmm_hour (time_of_last_break self);
          last_break_minute = hhmm_minute (time_of_last_break self)
      in case strptime_HHMM (time_of_last_break self) of
           Inl e \<Rightarrow> ([], Some e)
         | Inr time_of_last_break_dt \<Rightarrow>
             if time_of_last_break_dt < latest_break_time self
             then ([], Some (InvalidBreakTimeError (time_of_last_break self)))
             else break_loop (work_duration_in_hours self) (break_duration_in_hours self)
                    (\<lambda>hour. strptime_HM hour last_break_minute) 24 0 False
                    (24 - (last_break_hour + break_duration_in_hours self)) 0)"

text \<open>
  The result of \<^verbatim>\<open>get_minutes_worked\<close>, the dictionary with the keys
  \<^verbatim>\<open>"day_minutes"\<close> and \<^verbatim>\<open>"night_minutes"\<close>.
\<close>

record minutes_worked =
  day_minutes :: rat
  night_minutes :: rat

text \<open>
  The test of the three classes that use a half-open interval:
  \<^verbatim>\<open>self.day_start <= break_time < self.day_end - break_duration_td\<close>.
\<close>

definition in_day :: "'a RobotWorkDay_scheme \<Rightarrow> int \<Rightarrow> bool" where
  "in_day self break_time \<longleftrightarrow>
     day_start self \<le> break_time \<and>
     break_time < day_end self - break_duration_in_hours self * 3600"

text \<open>The two branches that subtract one break.\<close>

definition subtract_break :: "'a RobotWorkDay_scheme \<Rightarrow> bool \<Rightarrow> minutes_worked \<Rightarrow> minutes_worked" where
  "subtract_break self from_day mw =
     (if from_day
      then mw\<lparr>day_minutes := day_minutes mw - of_int (break_duration_in_hours self * 60)\<rparr>
      else mw\<lparr>night_minutes := night_minutes mw - of_int (break_duration_in_hours self * 60)\<rparr>)"

text \<open>
  Consuming a generator: the loop body runs on every value yielded, then the
  generator's exception, if any, leaves the function.
\<close>

definition consume :: "(int \<Rightarrow> 'b \<Rightarrow> 'b) \<Rightarrow> gen_result \<Rightarrow> 'b \<Rightarrow> error + 'b" where
  "consume body g acc =
     (case snd g of Some e \<Rightarrow> Inl e | None \<Rightarrow> Inr (fold body (fst g) acc))"

text \<open>\<^verbatim>\<open>RobotWorkDay.get_minutes_worked\<close>, first the minutes before any break.\<close>

definition minutes_before_breaks :: "'a RobotWorkDay_scheme \<Rightarrow> minutes_worked" where
  "minutes_before_breaks self =
     (let dm = of_int (td_seconds (day_end self - day_start self)) / 60
      in \<lparr> day_minutes = dm, night_minutes = 24 * 60 - dm \<rparr>)"

definition get_minutes_worked :: "'a RobotWorkDay_scheme \<Rightarrow> gen_result \<Rightarrow> error + minutes_worked" where
  "get_minutes_worked self break_timings =
     consume (\<lambda>break_time. subtract_break self (in_day self break_time))
       break_timings (minutes_before_breaks self)"

subsection \<open>Shift timestamps\<close>

record datetime =
  dt_year :: int
  dt_month :: int
  dt_day :: int
  dt_hour :: int
  dt_minute :: int
  dt_second :: int

definition is_leap :: "int \<Rightarrow> bool" where
  "is_leap y \<longleftrightarrow> y mod 4 = 0 \<and> (y mod 100 \<noteq> 0 \<or> y mod 400 = 0)"

definition days_before_year :: "int \<Rightarrow> int" where
  "days_before_year y = (y - 1) * 365 + (y - 1) div 4 - (y - 1) div 100 + (y - 1) div 400"

definition days_in_month :: "int \<Rightarrow> int \<Rightarrow> int" where
  "days_in_month y m =
     (if m = 2 \<and> is_leap y then 29
      else [31, 28, 31, 30, 31, 30, 31, 31, 30, 31, 30, 31] ! nat (m - 1))"

definition days_before_month :: "int \<Rightarrow> int \<Rightarrow> int" where
  "days_before_month y m =
     [0, 31, 59, 90, 120, 151, 181, 212, 243, 273, 304, 334] ! nat (m - 1)
       + (if 2 < m \<and> is_leap y then 1 else 0)"

definition toordinal :: "datetime \<Rightarrow> int" where
  "toordinal t = days_before_year (dt_year t) + days_before_month (dt_year t) (dt_month t) + dt_day t"

text \<open>The timestamps that \<^verbatim>\<open>datetime\<close> can hold (whole seconds).\<close>

definition valid_datetime :: "datetime \<Rightarrow> bool" where
  "valid_datetime t \<longleftrightarrow>
     1 \<le> dt_year t \<and> dt_year t \<le> 9999 \<and> 1 \<le> dt_month t \<and> dt_month t \<le> 12 \<and>
     1 \<le> dt_day t \<and> dt_day t \<le> days_in_month (dt_year t) (dt_month t) \<and>
     0 \<le> dt_hour t \<and> dt_hour t < 24 \<and> 0 \<le> dt_minute t \<and> dt_minute t < 60 \<and>
     0 \<le> dt_second t \<and> dt_second t < 60"

text \<open>Seconds of the day, and seconds on the time line; \<open>a < b\<close> on timestamps compares the latter.\<close>

definition time_of_day :: "datetime \<Rightarrow> int" where
  "time_of_day t = hms (dt_hour t) (dt_minute t) (dt_second t)"

definition timestamp :: "datetime \<Rightarrow> int" where
  "timestamp t = toordinal t * 86400 + time_of_day t"

text \<open>
  \<^verbatim>\<open>datetime(year, month, day, h, m, s)\<close> where \<open>h\<close>, \<open>m\<close>, \<open>s\<close> are read off a time
  \<open>tod\<close> of 1900-01-01 (\<open>0 \<le> tod < 86400\<close>) and the date off \<open>t\<close>.
\<close>

definition on_date_of :: "datetime \<Rightarrow> int \<Rightarrow> int" where
  "on_date_of t tod = toordinal t * 86400 + tod"

definition weekday :: "int \<Rightarrow> int" where
  "weekday ordinal = (ordinal + 6) mod 7"

definition same_date :: "datetime \<Rightarrow> datetime \<Rightarrow> bool" where
  "same_date a b \<longleftrightarrow> dt_year a = dt_year b \<and> dt_month a = dt_month b \<and> dt_day a = dt_day b"

subsection \<open>The class \<^verbatim>\<open>RobotShiftStartDay\<close>\<close>

record RobotShiftStartDay = RobotWorkDay +
  shift_start :: datetime

definition RobotShiftStartDay_init ::
  "datetime \<Rightarrow> int \<Rightarrow> int \<Rightarrow> int \<Rightarrow> int \<Rightarrow> hhmm option \<Rightarrow> int option \<Rightarrow> int option
     \<Rightarrow> RobotShiftStartDay" where
  "RobotShiftStartDay_init s ds de dr nr tlb wd bd =
     RobotWorkDay.extend (RobotWorkDay_init ds de dr nr tlb wd bd)
       (RobotShiftStartDay.fields s)"

definition ShiftStart_get_break_timings :: "RobotShiftStartDay \<Rightarrow> gen_result" where
  "ShiftStart_get_break_timings self =
     (let shift_start_hour = dt_hour (shift_start self);
          shift_start_minute = dt_minute (shift_start self);
          latest = on_date_of (shift_start self) 0 + 86400
                     - break_duration_in_hours self * 3600
                     - work_duration_in_hours self * 3600
      in if timestamp (shift_start self) \<le> latest
         then break_loop (work_duration_in_hours self) (break_duration_in_hours self)
                (\<lambda>hour. strptime_HM (hour + shift_start_hour) shift_start_minute)
                (nat (24 - shift_start_hour)) 0 False 0 0
         else ([hm shift_start_hour shift_start_minute], None))"

definition ShiftStart_minutes_before_breaks :: "RobotShiftStartDay \<Rightarrow> minutes_worked" where
  "ShiftStart_minutes_before_breaks self =
     (let s = shift_start self;
          shift_day_start = on_date_of s (day_start self);
          shift_day_end = on_date_of s (day_end self);
          dm = (if timestamp s < shift_day_start
                then of_int (td_seconds (day_end self - day_start self)) / 60
                else if timestamp s < shift_day_end
                then of_int (td_seconds (shift_day_end - timestamp s)) / 60
                else 0)
      in \<lparr> day_minutes = dm,
           night_minutes = of_int ((24 - dt_hour s) * 60) - of_int (dt_minute s)
                             - of_int (dt_second s) / 60 - dm \<rparr>)"

definition ShiftStart_get_minutes_worked ::
  "RobotShiftStartDay \<Rightarrow> gen_result \<Rightarrow> error + minutes_worked" where
  "ShiftStart_get_minutes_worked self break_timings =
     consume (\<lambda>break_time mw.
                if break_time = hm (dt_hour (shift_start self)) (dt_minute (shift_start self))
                then mw
                else subtract_break self (in_day self break_time) mw)
       break_timings (ShiftStart_minutes_before_breaks self)"

subsection \<open>The class \<^verbatim>\<open>RobotShiftEndDay\<close>\<close>

record RobotShiftEndDay = RobotWorkDay +
  shift_end :: datetime

definition RobotShiftEndDay_init ::
  "datetime \<Rightarrow> int \<Rightarrow> int \<Rightarrow> int \<Rightarrow> int \<Rightarrow> hhmm option \<Rightarrow> int option \<Rightarrow> int option
     \<Rightarrow> RobotShiftEndDay" where
  "RobotShiftEndDay_init e ds de dr nr tlb wd bd =
     RobotWorkDay.extend (RobotWorkDay_init ds de dr nr tlb wd bd)
       (RobotShiftEndDay.fields e)"

definition ShiftEnd_minutes_before_breaks :: "RobotShiftEndDay \<Rightarrow> minutes_worked" where
  "ShiftEnd_minutes_before_breaks self =
     (let e = shift_end self;
          shift_day_start = on_date_of e (day_start self);
          shift_day_end = on_date_of e (day_end self);
          dm = (if timestamp e < shift_day_start then 0
                else if timestamp e < shift_day_end
                then of_int (td_seconds (timestamp e - shift_day_start)) / 60
                else of_int (td_seconds (day_end self - day_start self)) / 60)
      in \<lparr> day_minutes = dm,
           night_minutes = of_int (dt_hour e * 60) + of_int (dt_minute e)
                             + of_int (dt_second e) / 60 - dm \<rparr>)"

definition ShiftEnd_get_minutes_worked ::
  "RobotShiftEndDay \<Rightarrow> gen_result \<Rightarrow> error + minutes_worked" where
  "ShiftEnd_get_minutes_worked self break_timings =
     consume (\<lambda>break_time mw.
                if hm (dt_hour (shift_end self)) (dt_minute (shift_end self))
                     - break_duration_in_hours self * 3600 < break_time
                then mw
                else subtract_break self (in_day self break_time) mw)
       break_timings (ShiftEnd_minutes_before_breaks self)"

subsection \<open>The class \<^verbatim>\<open>RobotWorkHalfDay\<close>\<close>

record RobotWorkHalfDay = RobotWorkDay +
  half_shift_start :: datetime
  half_shift_end :: datetime

definition RobotWorkHalfDay_init ::
  "datetime \<Rightarrow> datetime \<Rightarrow> int \<Rightarrow> int \<Rightarrow> int \<Rightarrow> int \<Rightarrow> hhmm option \<Rightarrow> int option \<Rightarrow> int option
     \<Rightarrow> RobotWorkHalfDay" where
  "RobotWorkHalfDay_init s e ds de dr nr tlb wd bd =
     RobotWorkDay.extend (RobotWorkDay_init ds de dr nr tlb wd bd)
       (RobotWorkHalfDay.fields s e)"

definition HalfDay_get_break_timings :: "RobotWorkHalfDay \<Rightarrow> gen_result" where
  "HalfDay_get_break_timings self =
     (let shift_start_hour = dt_hour (half_shift_start self);
          shift_start_minute = dt_minute (half_shift_start self);
          work_hours = timestamp (half_shift_end self) - timestamp (half_shift_start self)
      in if work_duration_in_hours self * 3600 < work_hours
         then break_loop (work_duration_in_hours self) (break_duration_in_hours self)
                (\<lambda>hour. strptime_HM (hour + shift_start_hour) shift_start_minute)
                (nat (td_seconds work_hours div 3600)) 0 False 0 0
         else ([hm shift_start_hour shift_start_minute], None))"

text \<open>
  The case split of \<^verbatim>\<open>RobotWorkHalfDay.get_minutes_worked\<close>. Its last branch prints
  a message and assigns nothing, so that the next statement, which reads
  \<^verbatim>\<open>day_minutes\<close>, raises \<^verbatim>\<open>UnboundLocalError\<close>.
\<close>

definition HalfDay_day_minutes :: "RobotWorkHalfDay \<Rightarrow> error + rat" where
  "HalfDay_day_minutes self =
     (let s = timestamp (half_shift_start self);
          e = timestamp (half_shift_end self);
          shift_day_start = on_date_of (half_shift_start self) (day_start self);
          shift_day_end = on_date_of (half_shift_start self) (day_end self)
      in if shift_day_end \<le> s \<or> e \<le> shift_day_start then Inr 0
         else if s < shift_day_start \<and> shift_day_end < e
         then Inr (of_int (td_seconds (day_end self - day_start self)) / 60)
         else if shift_day_start < s \<and> e < shift_day_end
         then Inr (of_int (td_seconds (e - s)) / 60)
         else if shift_day_start < s \<and> shift_day_end < e
         then Inr (of_int (td_seconds (shift_day_end - s)) / 60)
         else if s < shift_day_start \<and> e < shift_day_end
         then Inr (of_int (td_seconds (e - shift_day_start)) / 60)
         else Inl UnboundLocalError)"

definition HalfDay_minutes_before_breaks :: "RobotWorkHalfDay \<Rightarrow> error + minutes_worked" where
  "HalfDay_minutes_before_breaks self =
     (case HalfDay_day_minutes self of
        Inl err \<Rightarrow> Inl err
      | Inr dm \<Rightarrow>
          Inr \<lparr> day_minutes = dm,
                night_minutes =
                  of_int (td_seconds (timestamp (half_shift_end self)
                                        - timestamp (half_shift_start self))) / 60 - dm \<rparr>)"

text \<open>
  This class alone tests the closed interval:
  \<^verbatim>\<open>self.day_start <= break_time <= self.day_end - break_duration_td\<close>.
\<close>

definition in_day_closed :: "'a RobotWorkDay_scheme \<Rightarrow> int \<Rightarrow> bool" where
  "in_day_closed self break_time \<longleftrightarrow>
     day_start self \<le> break_time \<and>
     break_time \<le> day_end self - break_duration_in_hours self * 3600"

definition HalfDay_get_minutes_worked ::
  "RobotWorkHalfDay \<Rightarrow> gen_result \<Rightarrow> error + minutes_worked" where
  "HalfDay_get_minutes_worked self break_timings =
     (case HalfDay_minutes_before_breaks self of
        Inl err \<Rightarrow> Inl err
      | Inr mw0 \<Rightarrow>
          consume (\<lambda>break_time mw.
                     if break_time = hm (dt_hour (half_shift_start self))
                                        (dt_minute (half_shift_start self))
                     then mw
                     else subtract_break self (in_day_closed self break_time) mw)
            break_timings mw0)"

subsection \<open>The functions of \<^verbatim>\<open>main.py\<close>\<close>

text \<open>
  The rate configuration after \<^verbatim>\<open>json.load\<close>: every key is present, the values are
  integers, and the window times, which \<^verbatim>\<open>__init__\<close> parses with "%H:%M:%S", are
  given as seconds of the day.
\<close>

record roboRate =
  standardDay_start :: int
  standardDay_end :: int
  standardDay_value :: int
  standardNight_value :: int
  extraDay_start :: int
  extraDay_end :: int
  extraDay_value :: int
  extraNight_value :: int

definition parse_roboRate_values :: "roboRate \<Rightarrow> int \<Rightarrow> int \<times> int \<times> int \<times> int" where
  "parse_roboRate_values r wday =
     (if 4 < wday
      then (extraDay_start r, extraDay_end r, extraDay_value r, extraNight_value r)
      else (standardDay_start r, standardDay_end r, standardDay_value r, standardNight_value r))"

text \<open>\<^verbatim>\<open>int(x)\<close> of a float: truncation towards zero.\<close>

definition py_int :: "rat \<Rightarrow> int" where
  "py_int x = (if 0 \<le> x then \<lfloor>x\<rfloor> else \<lceil>x\<rceil>)"

definition calculate_half_day_pay :: "datetime \<Rightarrow> datetime \<Rightarrow> roboRate \<Rightarrow> error + int" where
  "calculate_half_day_pay s e r =
     (case parse_roboRate_values r (weekday (toordinal s)) of
        (ds, de, dr, nr) \<Rightarrow>
          (let work_day = RobotWorkHalfDay_init s e ds de dr nr None None None
           in case HalfDay_get_minutes_worked work_day (HalfDay_get_break_timings work_day) of
                Inl err \<Rightarrow> Inl err
              | Inr mw \<Rightarrow>
                  Inr (py_int (calculate_pay work_day (day_minutes mw) (night_minutes mw)))))"

text \<open>The three day counts of \<^verbatim>\<open>calculate_total_pay\<close> and their maximum.\<close>

definition day_of_month_difference :: "datetime \<Rightarrow> datetime \<Rightarrow> int" where
  "day_of_month_difference s e = dt_day e - dt_day s"

definition timedelta_days :: "datetime \<Rightarrow> datetime \<Rightarrow> int" where
  "timedelta_days s e = td_days (timestamp e - timestamp s)"

definition seconds_rounded_up :: "datetime \<Rightarrow> datetime \<Rightarrow> int" where
  "seconds_rounded_up s e =
     (let shift_duration_seconds = td_seconds (timestamp e - timestamp s)
      in shift_duration_seconds div 86400
           + (if 0 < shift_duration_seconds mod 86400 then 1 else 0))"

definition shift_duration_days :: "datetime \<Rightarrow> datetime \<Rightarrow> int" where
  "shift_duration_days s e =
     (let d1 = day_of_month_difference s e;
          d2 = (if d1 < timedelta_days s e then timedelta_days s e else d1)
      in if d2 < seconds_rounded_up s e then seconds_rounded_up s e else d2)"

text \<open>The object bound to \<^verbatim>\<open>work_day\<close> in the loop, of one of three classes.\<close>

datatype work_day =
    WorkDay RobotWorkDay
  | ShiftStartDay RobotShiftStartDay
  | ShiftEndDay RobotShiftEndDay

fun wd_get_break_timings :: "work_day \<Rightarrow> gen_result" where
  "wd_get_break_timings (WorkDay d) = get_break_timings d"
| "wd_get_break_timings (ShiftStartDay d) = ShiftStart_get_break_timings d"
| "wd_get_break_timings (ShiftEndDay d) = get_break_timings d"

fun wd_get_minutes_worked :: "work_day \<Rightarrow> gen_result \<Rightarrow> error + minutes_worked" where
  "wd_get_minutes_worked (WorkDay d) g = get_minutes_worked d g"
| "wd_get_minutes_worked (ShiftStartDay d) g = ShiftStart_get_minutes_worked d g"
| "wd_get_minutes_worked (ShiftEndDay d) g = ShiftEnd_get_minutes_worked d g"

fun wd_calculate_pay :: "work_day \<Rightarrow> rat \<Rightarrow> rat \<Rightarrow> rat" where
  "wd_calculate_pay (WorkDay d) dm nm = calculate_pay d dm nm"
| "wd_calculate_pay (ShiftStartDay d) dm nm = calculate_pay d dm nm"
| "wd_calculate_pay (ShiftEndDay d) dm nm = calculate_pay d dm nm"

text \<open>
  The variables of the loop. \<open>current_day\<close> is kept as the ordinal of its date, since
  only its weekday is read. \<open>processed\<close> is not in the source: it records the objects
  the loop has built and paid, oldest first.
\<close>

record loop_state =
  total_value :: rat
  current_day :: int
  last_break :: hhmm
  processed :: "work_day list"

definition make_work_day ::
  "datetime \<Rightarrow> datetime \<Rightarrow> roboRate \<Rightarrow> int \<Rightarrow> int \<Rightarrow> loop_state \<Rightarrow> work_day" where
  "make_work_day s e r n i st =
     (case parse_roboRate_values r (weekday (current_day st)) of
        (ds, de, dr, nr) \<Rightarrow>
          if i = 0 then ShiftStartDay (RobotShiftStartDay_init s ds de dr nr None None None)
          else if i = n
          then ShiftEndDay (RobotShiftEndDay_init e ds de dr nr (Some (last_break st)) None None)
          else WorkDay (RobotWorkDay_init ds de dr nr (Some (last_break st)) None None))"

definition loop_body ::
  "datetime \<Rightarrow> datetime \<Rightarrow> roboRate \<Rightarrow> int \<Rightarrow> int \<Rightarrow> loop_state \<Rightarrow> error + loop_state" where
  "loop_body s e r n i st =
     (let work_day = make_work_day s e r n i st
      in case wd_get_minutes_worked work_day (wd_get_break_timings work_day) of
           Inl err \<Rightarrow> Inl err
         | Inr mw \<Rightarrow>
             (case consume (\<lambda>break_time tlb. strftime_HHMM break_time)
                     (wd_get_break_timings work_day) (last_break st) of
                Inl err \<Rightarrow> Inl err
              | Inr tlb \<Rightarrow>
                  Inr \<lparr> total_value = total_value st
                          + wd_calculate_pay work_day (day_minutes mw) (night_minutes mw),
                        current_day = current_day st + 1,
                        last_break = tlb,
                        processed = processed st @ [work_day] \<rparr>))"

text \<open>\<^verbatim>\<open>for i in range(shift_duration_days + 1)\<close>, with \<open>k\<close> iterations left.\<close>

fun total_pay_loop ::
  "datetime \<Rightarrow> datetime \<Rightarrow> roboRate \<Rightarrow> int \<Rightarrow> nat \<Rightarrow> int \<Rightarrow> loop_state \<Rightarrow> error + loop_state" where
  "total_pay_loop s e r n 0 i st = Inr st"
| "total_pay_loop s e r n (Suc k) i st =
     (case loop_body s e r n i st of
        Inl err \<Rightarrow> Inl err
      | Inr st' \<Rightarrow> total_pay_loop s e r n k (i + 1) st')"

text \<open>The variables as they are set before the loop.\<close>

definition initial_state :: "datetime \<Rightarrow> loop_state" where
  "initial_state s =
     \<lparr> total_value = 0, current_day = toordinal s,
       last_break = HHMM (nat (dt_hour s)) (nat (dt_minute s)), processed = [] \<rparr>"

definition calculate_total_pay_run :: "datetime \<Rightarrow> datetime \<Rightarrow> roboRate \<Rightarrow> error + loop_state" where
  "calculate_total_pay_run s e r =
     total_pay_loop s e r (shift_duration_days s e) (nat (shift_duration_days s e + 1)) 0
       (initial_state s)"

definition calculate_total_pay :: "datetime \<Rightarrow> datetime \<Rightarrow> roboRate \<Rightarrow> error + int" where
  "calculate_total_pay s e r =
     (case calculate_total_pay_run s e r of
        Inl err \<Rightarrow> Inl err
      | Inr st \<Rightarrow> Inr (py_int (total_value st)))"

text \<open>\<^verbatim>\<open>main\<close>, from the two parsed timestamps and the rates on.\<close>

definition main :: "datetime \<Rightarrow> datetime \<Rightarrow> roboRate \<Rightarrow> error + int" where
  "main s e r =
     (if same_date s e then calculate_half_day_pay s e r else calculate_total_pay s e r)"

subsection \<open>Example objects\<close>

text \<open>\<^verbatim>\<open>datetime(y, mo, d, h, mi, s)\<close>.\<close>

definition mk_datetime :: "int \<Rightarrow> int \<Rightarrow> int \<Rightarrow> int \<Rightarrow> int \<Rightarrow> int \<Rightarrow> datetime" where
  "mk_datetime y mo d h mi s =
     \<lparr> dt_year = y, dt_month = mo, dt_day = d, dt_hour = h, dt_minute = mi, dt_second = s \<rparr>"

text \<open>
  The objects of \<^verbatim>\<open>test.py\<close>. That file builds \<^verbatim>\<open>day_3\<close> without the
  \<^verbatim>\<open>time_of_last_break\<close> that the class requires; here \<^verbatim>\<open>day_3\<close> carries "2015",
  which \<^verbatim>\<open>day_2\<close>, the day before, leaves.
\<close>

definition day_1 :: RobotWorkDay where
  "day_1 = RobotWorkDay_init (hms 7 0 0) (hms 23 0 0) 20 25 None None None"

definition day_2 :: RobotShiftStartDay where
  "day_2 = RobotShiftStartDay_init (mk_datetime 2038 1 1 20 15 0)
             (hms 7 0 0) (hms 23 0 0) 20 25 None None None"

definition day_3 :: RobotShiftEndDay where
  "day_3 = RobotShiftEndDay_init (mk_datetime 2038 1 2 8 45 0)
             (hms 7 0 0) (hms 23 0 0) 30 35 (Some (HHMM 20 15)) None None"

definition day_4 :: RobotWorkHalfDay where
  "day_4 = RobotWorkHalfDay_init (mk_datetime 2038 1 1 3 10 0) (mk_datetime 2038 1 1 23 45 0)
             (hms 7 0 0) (hms 23 0 0) 30 35 None None None"

text \<open>
  A rate configuration: the day window 07:00:00 to 23:00:00 on every day, 20 and 25 a
  minute on weekdays, 30 and 35 at the weekend.
\<close>

definition example_rates :: roboRate where
  "example_rates =
     \<lparr> standardDay_start = hms 7 0 0, standardDay_end = hms 23 0 0,
       standardDay_value = 20, standardNight_value = 25,
       extraDay_start = hms 7 0 0, extraDay_end = hms 23 0 0,
       extraDay_value = 30, extraNight_value = 35 \<rparr>"

subsection \<open>Predicates of the statements\<close>




text \<open>
  The \<^verbatim>\<open>time_of_last_break\<close> that the loop of \<^verbatim>\<open>calculate_total_pay\<close> carries
  after its first \<open>k\<close> iterations.
\<close>

definition carried_break_after :: "datetime \<Rightarrow> datetime \<Rightarrow> roboRate \<Rightarrow> nat \<Rightarrow> error + hhmm" where
  "carried_break_after s e r k =
     (case total_pay_loop s e r (shift_duration_days s e) k 0 (initial_state s) of
        Inl err \<Rightarrow> Inl err
      | Inr st \<Rightarrow> Inr (last_break st))"

text \<open>
  The first-day object and the last-day object that share the window, the rates and the
  policy of a full day \<open>f\<close> and start, or end, at the timestamp \<open>m\<close>.
\<close>

definition as_shift_start :: "RobotWorkDay \<Rightarrow> datetime \<Rightarrow> RobotShiftStartDay" where
  "as_shift_start f m = RobotWorkDay.extend f (RobotShiftStartDay.fields m)"

definition as_shift_end :: "RobotWorkDay \<Rightarrow> datetime \<Rightarrow> RobotShiftEndDay" where
  "as_shift_end f m = RobotWorkDay.extend f (RobotShiftEndDay.fields m)"

text \<open>
  Break times in ascending order, each at least \<open>g\<close> seconds after the one before, none
  before \<open>lo\<close>, and each at least an hour before \<open>hi\<close>.
\<close>

definition spaced_from :: "int \<Rightarrow> int \<Rightarrow> int \<Rightarrow> int list \<Rightarrow> bool" where
  "spaced_from g lo hi ts \<longleftrightarrow>
     sorted_wrt (\<lambda>a b. a + g \<le> b) ts \<and> (\<forall>t \<in> set ts. lo \<le> t \<and> t + 3600 \<le> hi)"

text \<open>
  A day window as \<^verbatim>\<open>__init__\<close> parses it from two times "%H:%M:%S", the start not
  after the end.
\<close>

definition wf_window :: "'a RobotWorkDay_scheme \<Rightarrow> bool" where
  "wf_window self \<longleftrightarrow> 0 \<le> day_start self \<and> day_start self \<le> day_end self \<and> day_end self < 86400"

section \<open>Properties\<close>

subsection \<open>Evaluating the hourly loop\<close>

lemma break_loop_numeral:
  "break_loop wd bd mk (numeral k) hour isBreak hsb bht =
     (if isBreak then
        (if bht + 1 = bd
         then break_loop wd bd mk (pred_numeral k) (hour + 1) False hsb 0
         else break_loop wd bd mk (pred_numeral k) (hour + 1) True hsb (bht + 1))
      else if hsb = wd then
        (case mk hour of
           Inl e \<Rightarrow> ([], Some e)
         | Inr t \<Rightarrow>
             (case break_loop wd bd mk (pred_numeral k) (hour + 1) True (0 + 1) bht of
                (ts, err) \<Rightarrow> (t # ts, err)))
      else break_loop wd bd mk (pred_numeral k) (hour + 1) False (hsb + 1) bht)"
  by (simp add: numeral_eq_Suc)

lemma break_loop_1:
  "break_loop wd bd mk 1 hour isBreak hsb bht =
     (if isBreak then ([], None)
      else if hsb = wd then
        (case mk hour of Inl e \<Rightarrow> ([], Some e) | Inr t \<Rightarrow> ([t], None))
      else ([], None))"
  by (simp split: sum.splits)

lemma strptime_HM_lt24: "h < 24 \<Longrightarrow> strptime_HM h m = Inr (hm h m)"
  by (simp add: strptime_HM_def)

text \<open>The loop raises only where building a break time raises.\<close>

lemma break_loop_no_error:
  "(\<And>h. hour \<le> h \<Longrightarrow> h < hour + int n \<Longrightarrow> \<exists>t. mk h = Inr t) \<Longrightarrow>
   snd (break_loop wd bd mk n hour isBreak hsb bht) = None"
proof (induction n arbitrary: hour isBreak hsb bht)
  case 0
  show ?case by simp
next
  case (Suc n)
  have rec: "snd (break_loop wd bd mk n (hour + 1) b x y) = None" for b x y
    by (rule Suc.IH) (use Suc.prems in auto)
  obtain t where t: "mk hour = Inr t"
    using Suc.prems [of hour] by auto
  show ?case
    using rec t by (simp add: case_prod_beta)
qed

lemma full_no_error:
  assumes "time_of_last_break d = HHMM h m" "h < 24" "m < 60"
    and "\<not> hm (int h) (int m) < latest_break_time d"
  shows "snd (get_break_timings d) = None"
proof -
  have "snd (break_loop wd bd (\<lambda>hour. strptime_HM hour (int m)) 24 0 False x 0) = None" for wd bd x
    by (rule break_loop_no_error) (simp add: strptime_HM_lt24)
  then show ?thesis
    using assms by (simp add: get_break_timings_def Let_def)
qed

text \<open>
  With the default policy and a last break at hour \<open>L\<close> from 15 on, the full-day
  generator starts with \<open>24 - (L + 1)\<close> hours since the break and yields every ninth hour.
\<close>

lemma full_breaks_default:
  assumes "work_duration_in_hours d = 8" "break_duration_in_hours d = 1"
    and "time_of_last_break d = HHMM L m" and "15 \<le> L" "L \<le> 23" "m < 60"
  shows "get_break_timings d =
           ([hm (int L - 15) (int m), hm (int L - 6) (int m)]
              @ (if L \<le> 20 then [hm (int L + 3) (int m)] else []), None)"
proof -
  have "L = 15 \<or> L = 16 \<or> L = 17 \<or> L = 18 \<or> L = 19 \<or> L = 20 \<or> L = 21 \<or> L = 22 \<or> L = 23"
    using assms(4,5) by arith
  then show ?thesis
    using assms(1,2,3,6)
    by (elim disjE)
      (simp_all add: get_break_timings_def latest_break_time_def strptime_HM_lt24 hm_def
         break_loop_numeral break_loop_1 Let_def)
qed

lemma full_minutes_sum:
  "day_minutes (minutes_before_breaks d) + night_minutes (minutes_before_breaks d) = 1440"
  by (simp add: minutes_before_breaks_def Let_def)

subsection \<open>Exceptions leave the loop of \<^verbatim>\<open>calculate_total_pay\<close>\<close>

lemma consume_raises: "snd g = Some err \<Longrightarrow> consume body g acc = Inl err"
  by (simp add: consume_def)

lemma wd_get_minutes_worked_raises:
  "snd g = Some err \<Longrightarrow> wd_get_minutes_worked w g = Inl err"
  by (cases w)
    (simp_all add: get_minutes_worked_def ShiftStart_get_minutes_worked_def
      ShiftEnd_get_minutes_worked_def consume_raises)

lemma loop_body_raises:
  "snd (wd_get_break_timings (make_work_day s e r n i st)) = Some err \<Longrightarrow>
   loop_body s e r n i st = Inl err"
  by (simp add: loop_body_def Let_def wd_get_minutes_worked_raises)

lemma total_pay_loop_add:
  "total_pay_loop s e r n (j + k) i st =
     (case total_pay_loop s e r n j i st of
        Inl err \<Rightarrow> Inl err
      | Inr st' \<Rightarrow> total_pay_loop s e r n k (i + int j) st')"
proof (induction j arbitrary: i st)
  case 0
  show ?case by simp
next
  case (Suc j)
  show ?case
    by (simp add: Suc.IH add.assoc split: sum.splits)
qed

subsection \<open>The full day: a rejected last break, and the nine-hour cycle\<close>

text \<open>
  C3, as stated, fails: with a work duration of 8 hours, a break duration of 1 hour and
  \<^verbatim>\<open>time_of_last_break = "0000"\<close>, the generator of a full day yields no break time
  at all. It raises \<^verbatim>\<open>InvalidBreakTimeError("0000")\<close>, since 00:00 is before 15:00,
  the latest break time.
\<close>

theorem C3_default_last_break_rejected:
  "get_break_timings
     (RobotWorkDay_init (hms 7 0 0) (hms 23 0 0) 20 25 (Some (HHMM 0 0)) (Some 8) (Some 1))
   = ([], Some (InvalidBreakTimeError (HHMM 0 0)))"
  by (simp add: get_break_timings_def RobotWorkDay_init_def default_duration_def
      latest_break_time_def hm_def Let_def)

text \<open>
  C3, amended: with a work duration of 8 hours and a break duration of 1 hour, a full
  day whose \<^verbatim>\<open>time_of_last_break\<close> is "HHMM" with \<open>15 \<le> HH \<le> 23\<close> and \<open>MM < 60\<close>
  starts with \<open>24 - (HH + 1)\<close> hours since the break and yields the break times
  \<open>(HH - 15):MM\<close>, \<open>(HH - 6):MM\<close> and, for \<open>HH \<le> 20\<close>, \<open>(HH + 3):MM\<close>: a cycle of nine hours,
  which starts at hour 0 for "1500". The day minutes and the night minutes before the
  breaks are subtracted add up to 1440.
\<close>

theorem C3_nine_hour_cycle:
  assumes "work_duration_in_hours d = 8" and "break_duration_in_hours d = 1"
    and "time_of_last_break d = HHMM L m" and "15 \<le> L" and "L \<le> 23" and "m < 60"
  shows "get_break_timings d =
           ([hm (int L - 15) (int m), hm (int L - 6) (int m)]
              @ (if L \<le> 20 then [hm (int L + 3) (int m)] else []), None) \<and>
         24 - (hhmm_hour (time_of_last_break d) + break_duration_in_hours d) = 8 - (int L - 15) \<and>
         day_minutes (minutes_before_breaks d) + night_minutes (minutes_before_breaks d) = 1440"
  using full_breaks_default [OF assms] assms(2,3) by (simp add: full_minutes_sum)

theorem C3_nine_hour_cycle_witness:
  "get_break_timings
     (RobotWorkDay_init (hms 7 0 0) (hms 23 0 0) 20 25 (Some (HHMM 15 0)) (Some 8) (Some 1))
   = ([hm 0 0, hm 9 0, hm 18 0], None) \<and>
   day_minutes (minutes_before_breaks
     (RobotWorkDay_init (hms 7 0 0) (hms 23 0 0) 20 25 (Some (HHMM 15 0)) (Some 8) (Some 1)))
   + night_minutes (minutes_before_breaks
     (RobotWorkDay_init (hms 7 0 0) (hms 23 0 0) 20 25 (Some (HHMM 15 0)) (Some 8) (Some 1)))
   = 1440"
  using C3_nine_hour_cycle [of
      "RobotWorkDay_init (hms 7 0 0) (hms 23 0 0) 20 25 (Some (HHMM 15 0)) (Some 8) (Some 1)" 15 0]
  by (simp add: RobotWorkDay_init_def default_duration_def)

text \<open>
  C4: the generator of a full day raises \<^verbatim>\<open>InvalidBreakTimeError\<close> exactly when
  \<^verbatim>\<open>time_of_last_break\<close> is strictly before the latest break time, which is midnight
  less the break duration and the work duration. It then has yielded nothing, the error
  carries the rejected \<^verbatim>\<open>time_of_last_break\<close>, \<^verbatim>\<open>get_minutes_worked\<close> passes the error
  on, and so does the loop of \<^verbatim>\<open>calculate_total_pay\<close>, whatever is left to iterate.
\<close>

theorem C4_invalid_break_time:
  assumes "time_of_last_break d = HHMM h m" and "h < 24" and "m < 60"
  shows "((\<exists>x. snd (get_break_timings d) = Some (InvalidBreakTimeError x)) \<longleftrightarrow>
            hm (int h) (int m) < latest_break_time d) \<and>
         (hm (int h) (int m) < latest_break_time d \<longrightarrow>
            get_break_timings d = ([], Some (InvalidBreakTimeError (HHMM h m))) \<and>
            get_minutes_worked d (get_break_timings d) = Inl (InvalidBreakTimeError (HHMM h m)) \<and>
            (make_work_day s e r n i st = WorkDay d \<longrightarrow>
               total_pay_loop s e r n (Suc k) i st = Inl (InvalidBreakTimeError (HHMM h m))))"
proof (cases "hm (int h) (int m) < latest_break_time d")
  case True
  then have g: "get_break_timings d = ([], Some (InvalidBreakTimeError (HHMM h m)))"
    using assms by (simp add: get_break_timings_def Let_def)
  have "loop_body s e r n i st = Inl (InvalidBreakTimeError (HHMM h m))"
    if "make_work_day s e r n i st = WorkDay d"
    by (rule loop_body_raises) (simp add: that g)
  then show ?thesis
    using True g by (simp add: get_minutes_worked_def consume_def)
next
  case False
  then show ?thesis
    using full_no_error [OF assms False] by simp
qed

theorem C4_invalid_break_time_witness:
  "hm 3 0 < latest_break_time
              (RobotWorkDay_init (hms 7 0 0) (hms 23 0 0) 20 25 (Some (HHMM 3 0)) None None) \<and>
   get_break_timings (RobotWorkDay_init (hms 7 0 0) (hms 23 0 0) 20 25 (Some (HHMM 3 0)) None None)
     = ([], Some (InvalidBreakTimeError (HHMM 3 0))) \<and>
   make_work_day (mk_datetime 2038 1 4 3 0 0) (mk_datetime 2038 1 6 10 0 0) example_rates 2 1
       \<lparr> total_value = 0, current_day = 744004, last_break = HHMM 3 0, processed = [] \<rparr>
     = WorkDay (RobotWorkDay_init (hms 7 0 0) (hms 23 0 0) 20 25 (Some (HHMM 3 0)) None None) \<and>
   total_pay_loop (mk_datetime 2038 1 4 3 0 0) (mk_datetime 2038 1 6 10 0 0) example_rates 2
       (Suc 1) 1
       \<lparr> total_value = 0, current_day = 744004, last_break = HHMM 3 0, processed = [] \<rparr>
     = Inl (InvalidBreakTimeError (HHMM 3 0))"
proof -
  have w: "make_work_day (mk_datetime 2038 1 4 3 0 0) (mk_datetime 2038 1 6 10 0 0)
             example_rates 2 1
             \<lparr> total_value = 0, current_day = 744004, last_break = HHMM 3 0, processed = [] \<rparr>
           = WorkDay (RobotWorkDay_init (hms 7 0 0) (hms 23 0 0) 20 25 (Some (HHMM 3 0)) None None)"
    by (simp add: make_work_day_def parse_roboRate_values_def weekday_def example_rates_def)
  have l: "hm 3 0 < latest_break_time
             (RobotWorkDay_init (hms 7 0 0) (hms 23 0 0) 20 25 (Some (HHMM 3 0)) None None)"
    by (simp add: latest_break_time_def RobotWorkDay_init_def default_duration_def hm_def)
  show ?thesis
    using w l C4_invalid_break_time [of
        "RobotWorkDay_init (hms 7 0 0) (hms 23 0 0) 20 25 (Some (HHMM 3 0)) None None" 3 0
        "mk_datetime 2038 1 4 3 0 0" "mk_datetime 2038 1 6 10 0 0" example_rates 2 1
        "\<lparr> total_value = 0, current_day = 744004, last_break = HHMM 3 0, processed = [] \<rparr>" 1]
    by (simp add: RobotWorkDay_init_def)
qed

subsection \<open>The first day of a shift that starts late\<close>

lemma ShiftStart_sentinel:
  assumes "latest_break_time d < time_of_day (shift_start d)"
  shows "ShiftStart_get_break_timings d
           = ([hm (dt_hour (shift_start d)) (dt_minute (shift_start d))], None)"
  using assms
  by (simp add: ShiftStart_get_break_timings_def Let_def latest_break_time_def timestamp_def
      on_date_of_def)

text \<open>
  C5: when the shift starts after the latest break time of its day (the next midnight
  less the break duration and the work duration), the generator yields one value, the
  hour and minute of the shift start; \<^verbatim>\<open>get_minutes_worked\<close> skips a break time equal
  to it; and the minutes returned are those before any break. So it is for
  \<^verbatim>\<open>day_2\<close>, which starts at 2038-01-01T20:15:00.
\<close>

theorem C5_shift_start_sentinel:
  assumes "latest_break_time d < time_of_day (shift_start d)"
  shows "ShiftStart_get_break_timings d
           = ([hm (dt_hour (shift_start d)) (dt_minute (shift_start d))], None) \<and>
         ShiftStart_get_minutes_worked d
             (hm (dt_hour (shift_start d)) (dt_minute (shift_start d)) # ts, err)
           = ShiftStart_get_minutes_worked d (ts, err) \<and>
         ShiftStart_get_minutes_worked d (ShiftStart_get_break_timings d)
           = Inr (ShiftStart_minutes_before_breaks d)"
  using ShiftStart_sentinel [OF assms]
  by (simp add: ShiftStart_get_minutes_worked_def consume_def split: option.splits)

theorem C5_shift_start_sentinel_witness:
  "latest_break_time day_2 = hms 15 0 0 \<and>
   time_of_day (shift_start day_2) = hms 20 15 0 \<and>
   hms 15 0 0 < hms 20 15 0 \<and>
   ShiftStart_get_break_timings day_2 = ([hm 20 15], None) \<and>
   ShiftStart_get_minutes_worked day_2 (ShiftStart_get_break_timings day_2)
     = Inr \<lparr>day_minutes = 165, night_minutes = 60\<rparr>"
  using C5_shift_start_sentinel [of day_2 "[]" None]
  by (simp add: day_2_def mk_datetime_def RobotShiftStartDay_init_def RobotWorkDay_init_def
      default_duration_def latest_break_time_def time_of_day_def hms_def hm_def
      RobotWorkDay.extend_def RobotShiftStartDay.fields_def ShiftStart_minutes_before_breaks_def
      Let_def timestamp_def on_date_of_def td_seconds_def ShiftStart_get_minutes_worked_def
      consume_def)

subsection \<open>The minutes before the breaks\<close>

lemma time_of_day_range:
  "valid_datetime t \<Longrightarrow> 0 \<le> time_of_day t \<and> time_of_day t < 86400"
  by (simp add: valid_datetime_def time_of_day_def hms_def)

lemma same_date_toordinal: "same_date a b \<Longrightarrow> toordinal a = toordinal b"
  by (simp add: same_date_def toordinal_def)



lemma same_day_shift_seconds:
  assumes "same_date s e" and "valid_datetime s" and "valid_datetime e"
    and "timestamp s \<le> timestamp e"
  shows "td_seconds (timestamp e - timestamp s) = time_of_day e - time_of_day s"
    and "time_of_day s \<le> time_of_day e"
proof -
  have eq: "timestamp e - timestamp s = time_of_day e - time_of_day s"
    using same_date_toordinal [OF assms(1)] by (simp add: timestamp_def)
  then show "time_of_day s \<le> time_of_day e"
    using assms(4) by simp
  then show "td_seconds (timestamp e - timestamp s) = time_of_day e - time_of_day s"
    using eq time_of_day_range [OF assms(2)] time_of_day_range [OF assms(3)]
    by (simp add: td_seconds_def)
qed


lemmas halfday_eval =
  RobotWorkHalfDay_init_def RobotWorkDay_init_def default_duration_def mk_datetime_def
  RobotWorkDay.extend_def RobotWorkHalfDay.fields_def
  HalfDay_get_break_timings_def HalfDay_get_minutes_worked_def HalfDay_minutes_before_breaks_def
  HalfDay_day_minutes_def timestamp_def toordinal_def days_before_year_def days_before_month_def
  is_leap_def time_of_day_def on_date_of_def td_seconds_def hms_def hm_def Let_def
  consume_def subtract_break_def in_day_closed_def in_day_def strptime_HM_def
  break_loop_numeral break_loop_1

lemmas main_eval =
  main_def same_date_def calculate_half_day_pay_def parse_roboRate_values_def weekday_def
  example_rates_def calculate_pay_def pay_before_rounding_def py_round2_def py_int_def



subsection \<open>The case split of a shift within one day\<close>

text \<open>
  The last branch of the case split is taken exactly when the shift starts at the
  second the day window opens, or ends at the second it closes, and overlaps the window.
\<close>

lemma HalfDay_fallback_iff:
  "HalfDay_day_minutes d = Inl UnboundLocalError \<longleftrightarrow>
     (timestamp (half_shift_start d) = on_date_of (half_shift_start d) (day_start d) \<or>
      timestamp (half_shift_end d) = on_date_of (half_shift_start d) (day_end d)) \<and>
     timestamp (half_shift_start d) < on_date_of (half_shift_start d) (day_end d) \<and>
     on_date_of (half_shift_start d) (day_start d) < timestamp (half_shift_end d)"
  by (auto simp add: HalfDay_day_minutes_def Let_def)

text \<open>
  C7 does not hold of the code: the branch commented as impossible is taken by a shift
  from 2038-01-01T07:00:00 to 2038-01-01T15:00:00 against the window 07:00:00 to
  23:00:00. No comparison of the chain is true of a shift start equal to the window's
  start; \<^verbatim>\<open>day_minutes\<close> stays unassigned and the next statement raises
  \<^verbatim>\<open>UnboundLocalError\<close>, which leaves \<^verbatim>\<open>main\<close>.
\<close>

theorem C7_fallback_branch_reached:
  "HalfDay_day_minutes
     (RobotWorkHalfDay_init (mk_datetime 2038 1 1 7 0 0) (mk_datetime 2038 1 1 15 0 0)
        (hms 7 0 0) (hms 23 0 0) 20 25 None None None) = Inl UnboundLocalError \<and>
   main (mk_datetime 2038 1 1 7 0 0) (mk_datetime 2038 1 1 15 0 0) example_rates
     = Inl UnboundLocalError"
  by (simp add: halfday_eval main_eval)

text \<open>
  C8 does not hold of the code: nothing compares the shift start with the shift end, and
  \<^verbatim>\<open>InvalidShiftError\<close> is raised nowhere. A shift from 2038-01-01T15:00:00 back to
  2038-01-01T10:00:00 is paid 22800: the seconds of the negative difference are 68400,
  that is 1140 minutes, all of them counted as day minutes at the rate 20.
\<close>

theorem C8_reversed_shift_is_paid:
  "main (mk_datetime 2038 1 1 15 0 0) (mk_datetime 2038 1 1 10 0 0) example_rates = Inr 22800"
  by (simp add: halfday_eval main_eval)

subsection \<open>The interval that charges a break to the day\<close>

text \<open>
  C1 does not hold of the class \<^verbatim>\<open>RobotWorkHalfDay\<close>, which tests the closed interval.
  A shift from 2038-01-01T14:00:00 to 2038-01-01T23:30:00 against the window 07:00:00
  to 23:00:00 has one break, at 22:00, which is the window's end less the break
  duration and so outside the half-open interval; yet the 60 minutes are taken from
  the day minutes (540 before, 480 after) and the night minutes stay 30.
\<close>

theorem C1_half_day_closed_interval:
  "HalfDay_get_break_timings
     (RobotWorkHalfDay_init (mk_datetime 2038 1 1 14 0 0) (mk_datetime 2038 1 1 23 30 0)
        (hms 7 0 0) (hms 23 0 0) 20 25 None None None) = ([hm 22 0], None) \<and>
   hm 22 0 = hms 23 0 0 - 1 * 3600 \<and>
   \<not> in_day
     (RobotWorkHalfDay_init (mk_datetime 2038 1 1 14 0 0) (mk_datetime 2038 1 1 23 30 0)
        (hms 7 0 0) (hms 23 0 0) 20 25 None None None) (hm 22 0) \<and>
   HalfDay_minutes_before_breaks
     (RobotWorkHalfDay_init (mk_datetime 2038 1 1 14 0 0) (mk_datetime 2038 1 1 23 30 0)
        (hms 7 0 0) (hms 23 0 0) 20 25 None None None)
     = Inr \<lparr>day_minutes = 540, night_minutes = 30\<rparr> \<and>
   HalfDay_get_minutes_worked
     (RobotWorkHalfDay_init (mk_datetime 2038 1 1 14 0 0) (mk_datetime 2038 1 1 23 30 0)
        (hms 7 0 0) (hms 23 0 0) 20 25 None None None)
     (HalfDay_get_break_timings
        (RobotWorkHalfDay_init (mk_datetime 2038 1 1 14 0 0) (mk_datetime 2038 1 1 23 30 0)
           (hms 7 0 0) (hms 23 0 0) 20 25 None None None))
     = Inr \<lparr>day_minutes = 480, night_minutes = 30\<rparr>"
  by (simp add: halfday_eval)

subsection \<open>The day loop of \<^verbatim>\<open>calculate_total_pay\<close>\<close>

lemma total_pay_loop_numeral:
  "total_pay_loop s e r n (numeral k) i st =
     (case loop_body s e r n i st of
        Inl err \<Rightarrow> Inl err
      | Inr st' \<Rightarrow> total_pay_loop s e r n (pred_numeral k) (i + 1) st')"
  by (simp add: numeral_eq_Suc)

lemma total_pay_loop_1:
  "total_pay_loop s e r n 1 i st = loop_body s e r n i st"
  by (simp split: sum.splits)

lemmas datetime_eval =
  mk_datetime_def timestamp_def toordinal_def days_before_year_def days_before_month_def
  is_leap_def time_of_day_def on_date_of_def td_seconds_def td_days_def hms_def hm_def

lemmas total_eval =
  calculate_total_pay_def calculate_total_pay_run_def initial_state_def
  carried_break_after_def shift_duration_days_def
  day_of_month_difference_def timedelta_days_def seconds_rounded_up_def
  total_pay_loop_numeral total_pay_loop_1 loop_body_def make_work_day_def
  parse_roboRate_values_def weekday_def example_rates_def
  RobotShiftStartDay_init_def RobotShiftEndDay_init_def RobotWorkDay_init_def
  default_duration_def RobotWorkDay.extend_def RobotShiftStartDay.fields_def
  RobotShiftEndDay.fields_def
  get_break_timings_def latest_break_time_def ShiftStart_get_break_timings_def
  get_minutes_worked_def ShiftStart_get_minutes_worked_def ShiftEnd_get_minutes_worked_def
  minutes_before_breaks_def ShiftStart_minutes_before_breaks_def ShiftEnd_minutes_before_breaks_def
  consume_def subtract_break_def in_day_def strptime_HM_def strftime_HHMM_def
  break_loop_numeral break_loop_1 calculate_pay_def pay_before_rounding_def py_round2_def py_int_def Let_def

















text \<open>
  Across the end of a month the greatest of the three counts can be less than the
  number of dates after the first: from 2038-01-31T10:00:00 to 2038-02-02T09:00:00 the
  counts are -29, 1 and 1, and the dates are two days apart.
\<close>

lemma month_boundary_day_count:
  "day_of_month_difference (mk_datetime 2038 1 31 10 0 0) (mk_datetime 2038 2 2 9 0 0) = - 29 \<and>
   timedelta_days (mk_datetime 2038 1 31 10 0 0) (mk_datetime 2038 2 2 9 0 0) = 1 \<and>
   seconds_rounded_up (mk_datetime 2038 1 31 10 0 0) (mk_datetime 2038 2 2 9 0 0) = 1 \<and>
   toordinal (mk_datetime 2038 2 2 9 0 0) - toordinal (mk_datetime 2038 1 31 10 0 0) = 2 \<and>
   shift_duration_days (mk_datetime 2038 1 31 10 0 0) (mk_datetime 2038 2 2 9 0 0) = 1"
  by (simp add: day_of_month_difference_def timedelta_days_def seconds_rounded_up_def
      shift_duration_days_def datetime_eval)

subsection \<open>What the subtraction of the breaks amounts to\<close>

lemma subtract_break_minutes:
  "day_minutes (subtract_break d b mw)
     = day_minutes mw - (if b then of_int (break_duration_in_hours d * 60) else 0)"
  "night_minutes (subtract_break d b mw)
     = night_minutes mw - (if b then 0 else of_int (break_duration_in_hours d * 60))"
  by (simp_all add: subtract_break_def)

lemma fold_subtract_break:
  "fold (\<lambda>t. subtract_break d (P t)) ts mw =
     \<lparr> day_minutes = day_minutes mw
         - of_int (break_duration_in_hours d * 60) * of_nat (length (filter P ts)),
       night_minutes = night_minutes mw
         - of_int (break_duration_in_hours d * 60) * of_nat (length (filter (\<lambda>t. \<not> P t) ts)) \<rparr>"
proof (induction ts arbitrary: mw)
  case Nil
  show ?case by simp
next
  case (Cons t ts)
  show ?case
    by (simp add: Cons.IH subtract_break_minutes algebra_simps)
qed

lemma fold_skip:
  "fold (\<lambda>t mw. if Q t then mw else f t mw) ts mw = fold f (filter (\<lambda>t. \<not> Q t) ts) mw"
  by (induction ts arbitrary: mw) simp_all

lemma get_minutes_worked_eq:
  "get_minutes_worked d (ts, None) =
     Inr \<lparr> day_minutes = day_minutes (minutes_before_breaks d)
             - of_int (break_duration_in_hours d * 60) * of_nat (length (filter (in_day d) ts)),
           night_minutes = night_minutes (minutes_before_breaks d)
             - of_int (break_duration_in_hours d * 60)
                 * of_nat (length (filter (\<lambda>t. \<not> in_day d t) ts)) \<rparr>"
  by (simp add: get_minutes_worked_def consume_def fold_subtract_break)

lemma ShiftStart_get_minutes_worked_eq:
  "ShiftStart_get_minutes_worked d (ts, None) =
     Inr \<lparr> day_minutes = day_minutes (ShiftStart_minutes_before_breaks d)
             - of_int (break_duration_in_hours d * 60)
                 * of_nat (length (filter (in_day d)
                     (filter (\<lambda>t. t \<noteq> hm (dt_hour (shift_start d)) (dt_minute (shift_start d))) ts))),
           night_minutes = night_minutes (ShiftStart_minutes_before_breaks d)
             - of_int (break_duration_in_hours d * 60)
                 * of_nat (length (filter (\<lambda>t. \<not> in_day d t)
                     (filter (\<lambda>t. t \<noteq> hm (dt_hour (shift_start d)) (dt_minute (shift_start d))) ts))) \<rparr>"
  by (simp add: ShiftStart_get_minutes_worked_def consume_def fold_skip fold_subtract_break)

lemma ShiftEnd_get_minutes_worked_eq:
  "ShiftEnd_get_minutes_worked d (ts, None) =
     Inr \<lparr> day_minutes = day_minutes (ShiftEnd_minutes_before_breaks d)
             - of_int (break_duration_in_hours d * 60)
                 * of_nat (length (filter (in_day d)
                     (filter (\<lambda>t. \<not> hm (dt_hour (shift_end d)) (dt_minute (shift_end d))
                                      - break_duration_in_hours d * 3600 < t) ts))),
           night_minutes = night_minutes (ShiftEnd_minutes_before_breaks d)
             - of_int (break_duration_in_hours d * 60)
                 * of_nat (length (filter (\<lambda>t. \<not> in_day d t)
                     (filter (\<lambda>t. \<not> hm (dt_hour (shift_end d)) (dt_minute (shift_end d))
                                      - break_duration_in_hours d * 3600 < t) ts))) \<rparr>"
  by (simp add: ShiftEnd_get_minutes_worked_def consume_def fold_skip fold_subtract_break)

lemma HalfDay_get_minutes_worked_eq:
  "HalfDay_minutes_before_breaks d = Inr mw0 \<Longrightarrow>
   HalfDay_get_minutes_worked d (ts, None) =
     Inr \<lparr> day_minutes = day_minutes mw0
             - of_int (break_duration_in_hours d * 60)
                 * of_nat (length (filter (in_day_closed d)
                     (filter (\<lambda>t. t \<noteq> hm (dt_hour (half_shift_start d))
                                            (dt_minute (half_shift_start d))) ts))),
           night_minutes = night_minutes mw0
             - of_int (break_duration_in_hours d * 60)
                 * of_nat (length (filter (\<lambda>t. \<not> in_day_closed d t)
                     (filter (\<lambda>t. t \<noteq> hm (dt_hour (half_shift_start d))
                                            (dt_minute (half_shift_start d))) ts))) \<rparr>"
  by (simp add: HalfDay_get_minutes_worked_def consume_def fold_skip fold_subtract_break)

subsection \<open>Splitting a day\<close>

lemma as_shift_fields [simp]:
  "day_start (as_shift_start f m) = day_start f" "day_end (as_shift_start f m) = day_end f"
  "day_rate (as_shift_start f m) = day_rate f" "night_rate (as_shift_start f m) = night_rate f"
  "time_of_last_break (as_shift_start f m) = time_of_last_break f"
  "work_duration_in_hours (as_shift_start f m) = work_duration_in_hours f"
  "break_duration_in_hours (as_shift_start f m) = break_duration_in_hours f"
  "shift_start (as_shift_start f m) = m"
  "day_start (as_shift_end f m) = day_start f" "day_end (as_shift_end f m) = day_end f"
  "day_rate (as_shift_end f m) = day_rate f" "night_rate (as_shift_end f m) = night_rate f"
  "time_of_last_break (as_shift_end f m) = time_of_last_break f"
  "work_duration_in_hours (as_shift_end f m) = work_duration_in_hours f"
  "break_duration_in_hours (as_shift_end f m) = break_duration_in_hours f"
  "shift_end (as_shift_end f m) = m"
  by (simp_all add: as_shift_start_def as_shift_end_def RobotWorkDay.extend_def
      RobotShiftStartDay.fields_def RobotShiftEndDay.fields_def)

lemma in_day_as_shift [simp]:
  "in_day (as_shift_start f m) = in_day f" "in_day (as_shift_end f m) = in_day f"
  by (simp_all add: in_day_def fun_eq_iff)

lemma get_break_timings_as_shift_end [simp]:
  "get_break_timings (as_shift_end f m) = get_break_timings f"
  by (simp add: get_break_timings_def latest_break_time_def split: sum.splits)






text \<open>
  The pays do not add up either where no break is due at all: each call truncates its
  total. Half a minute of night work at the rate 25 is paid 12, a whole minute 25.
\<close>

lemma split_truncation:
  "main (mk_datetime 2038 1 4 23 30 0) (mk_datetime 2038 1 4 23 30 30) example_rates = Inr 12 \<and>
   main (mk_datetime 2038 1 4 23 30 30) (mk_datetime 2038 1 4 23 31 0) example_rates = Inr 12 \<and>
   main (mk_datetime 2038 1 4 23 30 0) (mk_datetime 2038 1 4 23 31 0) example_rates = Inr 25"
proof -
  have "\<lfloor>(25::rat) / 2\<rfloor> = 12"
    by (rule floor_unique) simp_all
  then show ?thesis
    by (simp add: halfday_eval main_eval)
qed


subsection \<open>The day minutes are not negative\<close>

lemma spaced_from_Nil [simp]: "spaced_from g lo hi []"
  by (simp add: spaced_from_def)

lemma spaced_from_weaken:
  "spaced_from g lo hi ts \<Longrightarrow> lo' \<le> lo \<Longrightarrow> hi \<le> hi' \<Longrightarrow> spaced_from g lo' hi' ts"
  by (fastforce simp add: spaced_from_def)

lemma spaced_from_Cons:
  "spaced_from g (t + g) hi ts \<Longrightarrow> lo \<le> t \<Longrightarrow> t + 3600 \<le> hi \<Longrightarrow> 0 \<le> g \<Longrightarrow>
   spaced_from g lo hi (t # ts)"
  by (fastforce simp add: spaced_from_def)

text \<open>
  The loop yields break times in ascending order; after one it skips the hours of the
  break, so the next is later by more than the break duration.
\<close>

lemma break_loop_spaced:
  assumes "1 \<le> bd"
    and "isBreak \<Longrightarrow> 0 \<le> bht \<and> bht < bd" and "\<not> isBreak \<Longrightarrow> bht = 0"
    and "\<And>h. hour \<le> h \<Longrightarrow> h < hour + int n \<Longrightarrow> mk h = Inr (c + h * 3600)"
  shows "spaced_from (bd * 3600)
           (c + (hour + (if isBreak then bd - bht else 0)) * 3600)
           (c + (hour + int n) * 3600)
           (fst (break_loop wd bd mk n hour isBreak hsb bht))"
  using assms(2-)
proof (induction n arbitrary: hour isBreak hsb bht)
  case 0
  show ?case by simp
next
  case (Suc n)
  have mk': "mk h = Inr (c + h * 3600)" if "hour + 1 \<le> h" "h < hour + 1 + int n" for h
    using Suc.prems(3) [of h] that by simp
  have hi: "c + (hour + 1 + int n) * 3600 = c + (hour + int (Suc n)) * 3600"
    by simp
  consider (endbreak) "isBreak" "bht + 1 = bd" | (inbreak) "isBreak" "bht + 1 \<noteq> bd"
    | (emit) "\<not> isBreak" "hsb = wd" | (work) "\<not> isBreak" "hsb \<noteq> wd"
    by blast
  then show ?case
  proof cases
    case endbreak
    have "spaced_from (bd * 3600) (c + (hour + 1 + (if False then bd - 0 else 0)) * 3600)
            (c + (hour + 1 + int n) * 3600)
            (fst (break_loop wd bd mk n (hour + 1) False hsb 0))"
      by (rule Suc.IH) (simp_all add: mk')
    then have "spaced_from (bd * 3600) (c + (hour + (bd - bht)) * 3600)
            (c + (hour + int (Suc n)) * 3600)
            (fst (break_loop wd bd mk n (hour + 1) False hsb 0))"
      by (rule spaced_from_weaken) (use endbreak in \<open>simp_all add: algebra_simps\<close>)
    then show ?thesis
      using endbreak by (simp del: of_nat_Suc)
  next
    case inbreak
    have b: "0 \<le> bht + 1" "bht + 1 < bd"
      using Suc.prems(1) inbreak by simp_all
    have "spaced_from (bd * 3600) (c + (hour + 1 + (if True then bd - (bht + 1) else 0)) * 3600)
            (c + (hour + 1 + int n) * 3600)
            (fst (break_loop wd bd mk n (hour + 1) True hsb (bht + 1)))"
      by (rule Suc.IH) (simp_all add: mk' b)
    then have "spaced_from (bd * 3600) (c + (hour + (bd - bht)) * 3600)
            (c + (hour + int (Suc n)) * 3600)
            (fst (break_loop wd bd mk n (hour + 1) True hsb (bht + 1)))"
      by (rule spaced_from_weaken) (simp_all add: algebra_simps)
    then show ?thesis
      using inbreak by (simp del: of_nat_Suc)
  next
    case emit
    have z: "bht = 0"
      using Suc.prems(2) emit by simp
    have t: "mk hour = Inr (c + hour * 3600)"
      using Suc.prems(3) [of hour] by simp
    have "spaced_from (bd * 3600) (c + (hour + 1 + (if True then bd - 0 else 0)) * 3600)
            (c + (hour + 1 + int n) * 3600)
            (fst (break_loop wd bd mk n (hour + 1) True 1 0))"
      by (rule Suc.IH) (use assms(1) in \<open>simp_all add: mk'\<close>)
    then have "spaced_from (bd * 3600) (c + hour * 3600 + bd * 3600)
            (c + (hour + int (Suc n)) * 3600)
            (fst (break_loop wd bd mk n (hour + 1) True 1 0))"
      by (rule spaced_from_weaken) (simp_all add: algebra_simps)
    then have "spaced_from (bd * 3600) (c + hour * 3600) (c + (hour + int (Suc n)) * 3600)
            ((c + hour * 3600) # fst (break_loop wd bd mk n (hour + 1) True 1 0))"
      by (rule spaced_from_Cons) (use assms(1) in \<open>simp_all add: algebra_simps\<close>)
    then show ?thesis
      using emit t z by (simp add: case_prod_beta del: of_nat_Suc)
  next
    case work
    have z: "bht = 0"
      using Suc.prems(2) work by simp
    have "spaced_from (bd * 3600) (c + (hour + 1 + (if False then bd - 0 else 0)) * 3600)
            (c + (hour + 1 + int n) * 3600)
            (fst (break_loop wd bd mk n (hour + 1) False (hsb + 1) 0))"
      by (rule Suc.IH) (simp_all add: mk')
    then have "spaced_from (bd * 3600) (c + hour * 3600) (c + (hour + int (Suc n)) * 3600)
            (fst (break_loop wd bd mk n (hour + 1) False (hsb + 1) 0))"
      by (rule spaced_from_weaken) (simp_all add: algebra_simps)
    then show ?thesis
      using work z by (simp del: of_nat_Suc)
  qed
qed


lemma spaced_from_filter: "spaced_from g lo hi ts \<Longrightarrow> spaced_from g lo hi (filter P ts)"
  by (simp add: spaced_from_def sorted_wrt_filter)

lemma break_loop_spaced_start:
  assumes "1 \<le> bd" and "hsb \<noteq> wd"
    and "\<And>h. hour \<le> h \<Longrightarrow> h < hour + int n \<Longrightarrow> mk h = Inr (c + h * 3600)"
  shows "spaced_from (bd * 3600) (c + (hour + 1) * 3600) (c + (hour + int n) * 3600)
           (fst (break_loop wd bd mk n hour False hsb 0))"
proof (cases n)
  case 0
  then show ?thesis by simp
next
  case (Suc k)
  have "spaced_from (bd * 3600) (c + (hour + 1 + (if False then bd - 0 else 0)) * 3600)
          (c + (hour + 1 + int k) * 3600)
          (fst (break_loop wd bd mk k (hour + 1) False (hsb + 1) 0))"
    by (rule break_loop_spaced [OF assms(1)]) (use assms(3) Suc in simp_all)
  then have "spaced_from (bd * 3600) (c + (hour + 1) * 3600) (c + (hour + int n) * 3600)
          (fst (break_loop wd bd mk k (hour + 1) False (hsb + 1) 0))"
    by (rule spaced_from_weaken) (use Suc in \<open>simp_all add: algebra_simps\<close>)
  then show ?thesis
    using Suc assms(2) by simp
qed

lemma spaced_count:
  assumes "sorted_wrt (\<lambda>a b. a + g \<le> b) xs" and "xs \<noteq> []"
    and "\<And>x. x \<in> set xs \<Longrightarrow> lo \<le> x \<and> x + g \<le> hi"
  shows "int (length xs) * g \<le> hi - lo"
  using assms
proof (induction xs arbitrary: lo)
  case Nil
  then show ?case by simp
next
  case (Cons x xs)
  show ?case
  proof (cases "xs = []")
    case True
    then show ?thesis
      using Cons.prems(3) [of x] by simp
  next
    case False
    have "int (length xs) * g \<le> hi - (x + g)"
    proof (rule Cons.IH [OF _ False])
      show "sorted_wrt (\<lambda>a b. a + g \<le> b) xs"
        using Cons.prems(1) by simp
      show "x + g \<le> y \<and> y + g \<le> hi" if "y \<in> set xs" for y
        using Cons.prems(1) Cons.prems(3) [of y] that by simp
    qed
    then show ?thesis
      using Cons.prems(3) [of x] by (simp add: algebra_simps)
  qed
qed

text \<open>
  Breaks that are at least their duration apart and lie, duration included, between
  \<open>lo\<close> and \<open>hi\<close> take no more time than \<open>X\<close>, when \<open>X\<close> covers that interval.
\<close>

lemma bucket_bound:
  assumes "sorted_wrt (\<lambda>a b. a + g \<le> b) ts"
    and "\<And>t. t \<in> set ts \<Longrightarrow> P t \<Longrightarrow> lo \<le> t \<and> t + g \<le> hi"
    and "hi - lo \<le> X" and "0 \<le> X"
  shows "int (length (filter P ts)) * g \<le> X"
proof (cases "filter P ts = []")
  case True
  then show ?thesis
    using assms(4) by simp
next
  case False
  have "int (length (filter P ts)) * g \<le> hi - lo"
    by (rule spaced_count [OF sorted_wrt_filter [OF assms(1)] False]) (use assms(2) in simp)
  then show ?thesis
    using assms(3) by simp
qed

lemma minutes_nonneg:
  assumes "int n * (bd * 3600) \<le> X"
  shows "(0::rat) \<le> of_int X / 60 - of_int (bd * 60) * of_nat n"
proof -
  have "(of_int (bd * 60) * of_nat n :: rat) * 60 = of_int (int n * (bd * 3600))"
    by simp
  also have "\<dots> \<le> of_int X"
    using assms by (simp only: of_int_le_iff)
  finally have "(of_int (bd * 60) * of_nat n :: rat) \<le> of_int X / 60"
    by (simp add: pos_le_divide_eq)
  then show ?thesis by simp
qed

lemma consume_Inr: "consume body g acc = Inr r \<Longrightarrow> snd g = None"
  by (simp add: consume_def split: option.splits)

lemma full_breaks_spaced:
  assumes "1 \<le> break_duration_in_hours d"
  shows "sorted_wrt (\<lambda>a b. a + break_duration_in_hours d * 3600 \<le> b) (fst (get_break_timings d))"
proof -
  obtain h m where tlb: "time_of_last_break d = HHMM h m"
    by (cases "time_of_last_break d")
  show ?thesis
  proof (cases "h < 24 \<and> m < 60 \<and> \<not> hm (int h) (int m) < latest_break_time d")
    case True
    have "spaced_from (break_duration_in_hours d * 3600)
            (int m * 60 + (0 + (if False then break_duration_in_hours d - 0 else 0)) * 3600)
            (int m * 60 + (0 + int 24) * 3600)
            (fst (break_loop (work_duration_in_hours d) (break_duration_in_hours d)
               (\<lambda>hour. strptime_HM hour (int m)) 24 0 False
               (24 - (int h + break_duration_in_hours d)) 0))"
      by (rule break_loop_spaced [OF assms]) (simp_all add: strptime_HM_lt24 hm_def)
    then show ?thesis
      using True tlb by (simp add: get_break_timings_def Let_def spaced_from_def)
  next
    case False
    then have "fst (get_break_timings d) = []"
      using tlb by (auto simp add: get_break_timings_def Let_def)
    then show ?thesis by simp
  qed
qed

lemma full_day_minutes_nonneg:
  assumes "wf_window d" and "1 \<le> break_duration_in_hours d"
    and "get_minutes_worked d (get_break_timings d) = Inr mw"
  shows "0 \<le> day_minutes mw"
proof -
  obtain ts where g: "get_break_timings d = (ts, None)"
    using consume_Inr [OF assms(3) [unfolded get_minutes_worked_def]]
    by (cases "get_break_timings d") simp
  have s: "sorted_wrt (\<lambda>a b. a + break_duration_in_hours d * 3600 \<le> b) ts"
    using full_breaks_spaced [OF assms(2)] g by simp
  have x: "td_seconds (day_end d - day_start d) = day_end d - day_start d"
    using assms(1) by (simp add: wf_window_def td_seconds_def)
  have "int (length (filter (in_day d) ts)) * (break_duration_in_hours d * 3600)
          \<le> day_end d - day_start d"
    by (rule bucket_bound [OF s, where lo = "day_start d" and hi = "day_end d"])
      (use assms(1) in \<open>simp_all add: in_day_def wf_window_def\<close>)
  then have "0 \<le> day_minutes (minutes_before_breaks d)
      - of_int (break_duration_in_hours d * 60) * of_nat (length (filter (in_day d) ts))"
    using minutes_nonneg [of "length (filter (in_day d) ts)" "break_duration_in_hours d"
        "day_end d - day_start d"]
    by (simp add: minutes_before_breaks_def Let_def x)
  moreover have "day_minutes mw = day_minutes (minutes_before_breaks d)
      - of_int (break_duration_in_hours d * 60) * of_nat (length (filter (in_day d) ts))"
    using assms(3) unfolding g get_minutes_worked_eq by auto
  ultimately show ?thesis
    by simp
qed

lemma hm_le_time_of_day:
  assumes "valid_datetime t"
  shows "hm (dt_hour t) (dt_minute t) \<le> time_of_day t"
    and "time_of_day t < hm (dt_hour t) (dt_minute t) + 60"
  using assms by (simp_all add: valid_datetime_def hm_def time_of_day_def hms_def)

text \<open>The break times of a first day that are kept lie an hour or more after its start.\<close>

lemma ShiftStart_breaks_spaced:
  assumes "1 \<le> break_duration_in_hours d" and "work_duration_in_hours d \<noteq> 0"
    and "valid_datetime (shift_start d)"
  shows "spaced_from (break_duration_in_hours d * 3600)
           (hm (dt_hour (shift_start d)) (dt_minute (shift_start d)) + 3600)
           (hm (dt_hour (shift_start d)) (dt_minute (shift_start d)) + 86400)
           (filter (\<lambda>t. t \<noteq> hm (dt_hour (shift_start d)) (dt_minute (shift_start d)))
              (fst (ShiftStart_get_break_timings d)))"
proof -
  let ?h = "dt_hour (shift_start d)" and ?m = "dt_minute (shift_start d)"
  have v: "0 \<le> ?h" "?h < 24"
    using assms(3) by (simp_all add: valid_datetime_def)
  show ?thesis
  proof (cases "timestamp (shift_start d)
      \<le> on_date_of (shift_start d) 0 + 86400 - break_duration_in_hours d * 3600
          - work_duration_in_hours d * 3600")
    case True
    have "spaced_from (break_duration_in_hours d * 3600) (hm ?h ?m + (0 + 1) * 3600)
            (hm ?h ?m + (0 + int (nat (24 - ?h))) * 3600)
            (fst (break_loop (work_duration_in_hours d) (break_duration_in_hours d)
               (\<lambda>hour. strptime_HM (hour + ?h) ?m) (nat (24 - ?h)) 0 False 0 0))"
    proof (rule break_loop_spaced_start [OF assms(1)])
      show "0 \<noteq> work_duration_in_hours d"
        using assms(2) by simp
      show "strptime_HM (k + ?h) ?m = Inr (hm ?h ?m + k * 3600)"
        if "0 \<le> k" "k < 0 + int (nat (24 - ?h))" for k
        using that v by (simp add: strptime_HM_lt24 hm_def algebra_simps)
    qed
    then have "spaced_from (break_duration_in_hours d * 3600) (hm ?h ?m + 3600)
            (hm ?h ?m + 86400)
            (fst (break_loop (work_duration_in_hours d) (break_duration_in_hours d)
               (\<lambda>hour. strptime_HM (hour + ?h) ?m) (nat (24 - ?h)) 0 False 0 0))"
      by (rule spaced_from_weaken) (use v in simp_all)
    then show ?thesis
      using True by (simp add: ShiftStart_get_break_timings_def Let_def spaced_from_filter)
  next
    case False
    then show ?thesis
      by (simp add: ShiftStart_get_break_timings_def Let_def)
  qed
qed

lemma ShiftStart_day_seconds:
  assumes "wf_window d" and "valid_datetime (shift_start d)"
  shows "\<exists>X. day_minutes (ShiftStart_minutes_before_breaks d) = of_int X / 60 \<and> 0 \<le> X \<and>
           day_end d - max (day_start d) (time_of_day (shift_start d)) \<le> X"
proof -
  let ?t = "time_of_day (shift_start d)"
  have w: "0 \<le> day_start d" "day_start d \<le> day_end d" "day_end d < 86400"
    using assms(1) by (simp_all add: wf_window_def)
  have t: "0 \<le> ?t" "?t < 86400"
    using time_of_day_range [OF assms(2)] by simp_all
  consider (before) "?t < day_start d"
    | (inside) "day_start d \<le> ?t" "?t < day_end d"
    | (after) "day_start d \<le> ?t" "day_end d \<le> ?t"
    by linarith
  then show ?thesis
  proof cases
    case before
    then have "day_minutes (ShiftStart_minutes_before_breaks d)
        = of_int (day_end d - day_start d) / 60"
      using w by (simp add: ShiftStart_minutes_before_breaks_def Let_def timestamp_def
          on_date_of_def td_seconds_def)
    then show ?thesis
      using before w by (intro exI [of _ "day_end d - day_start d"]) simp
  next
    case inside
    then have "day_minutes (ShiftStart_minutes_before_breaks d) = of_int (day_end d - ?t) / 60"
      using w t by (simp add: ShiftStart_minutes_before_breaks_def Let_def timestamp_def
          on_date_of_def td_seconds_def)
    then show ?thesis
      using inside w by (intro exI [of _ "day_end d - ?t"]) simp
  next
    case after
    then have "day_minutes (ShiftStart_minutes_before_breaks d) = of_int 0 / 60"
      by (simp add: ShiftStart_minutes_before_breaks_def Let_def timestamp_def on_date_of_def)
    then show ?thesis
      using after w by (intro exI [of _ 0]) simp
  qed
qed

lemma ShiftStart_day_minutes_nonneg:
  assumes "wf_window d" and "1 \<le> break_duration_in_hours d" and "work_duration_in_hours d \<noteq> 0"
    and "valid_datetime (shift_start d)"
    and "ShiftStart_get_minutes_worked d (ShiftStart_get_break_timings d) = Inr mw"
  shows "0 \<le> day_minutes mw"
proof -
  let ?s = "hm (dt_hour (shift_start d)) (dt_minute (shift_start d))"
  let ?g = "break_duration_in_hours d * 3600"
  obtain ts where g: "ShiftStart_get_break_timings d = (ts, None)"
    using consume_Inr [OF assms(5) [unfolded ShiftStart_get_minutes_worked_def]]
    by (cases "ShiftStart_get_break_timings d") simp
  let ?k = "filter (\<lambda>t. t \<noteq> ?s) ts"
  have sp: "spaced_from ?g (?s + 3600) (?s + 86400) ?k"
    using ShiftStart_breaks_spaced [OF assms(2,3,4)] g by simp
  obtain X where X: "day_minutes (ShiftStart_minutes_before_breaks d) = of_int X / 60"
    "0 \<le> X" "day_end d - max (day_start d) (time_of_day (shift_start d)) \<le> X"
    using ShiftStart_day_seconds [OF assms(1,4)] by blast
  have "int (length (filter (in_day d) ?k)) * ?g \<le> X"
  proof (rule bucket_bound [where lo = "max (day_start d) (time_of_day (shift_start d))"
        and hi = "day_end d"])
    show "sorted_wrt (\<lambda>a b. a + ?g \<le> b) ?k"
      using sp by (simp add: spaced_from_def)
    show "max (day_start d) (time_of_day (shift_start d)) \<le> t \<and> t + ?g \<le> day_end d"
      if "t \<in> set ?k" "in_day d t" for t
    proof -
      have "?s + 3600 \<le> t"
        using sp that(1) by (simp add: spaced_from_def)
      then show ?thesis
        using that(2) hm_le_time_of_day(2) [OF assms(4)] by (simp add: in_day_def)
    qed
  qed (use X in simp_all)
  then have "(0::rat) \<le> of_int X / 60
      - of_int (break_duration_in_hours d * 60) * of_nat (length (filter (in_day d) ?k))"
    by (rule minutes_nonneg)
  moreover have "day_minutes mw = day_minutes (ShiftStart_minutes_before_breaks d)
      - of_int (break_duration_in_hours d * 60) * of_nat (length (filter (in_day d) ?k))"
    using assms(5) unfolding g ShiftStart_get_minutes_worked_eq by auto
  ultimately show ?thesis
    by (simp add: X(1))
qed

lemma ShiftEnd_day_seconds:
  assumes "wf_window d" and "valid_datetime (shift_end d)"
  shows "\<exists>X. day_minutes (ShiftEnd_minutes_before_breaks d) = of_int X / 60 \<and> 0 \<le> X \<and>
           min (day_end d) (time_of_day (shift_end d)) - day_start d \<le> X"
proof -
  let ?t = "time_of_day (shift_end d)"
  have w: "0 \<le> day_start d" "day_start d \<le> day_end d" "day_end d < 86400"
    using assms(1) by (simp_all add: wf_window_def)
  have t: "0 \<le> ?t" "?t < 86400"
    using time_of_day_range [OF assms(2)] by simp_all
  consider (before) "?t < day_start d"
    | (inside) "day_start d \<le> ?t" "?t < day_end d"
    | (after) "day_start d \<le> ?t" "day_end d \<le> ?t"
    by linarith
  then show ?thesis
  proof cases
    case before
    then have "day_minutes (ShiftEnd_minutes_before_breaks d) = of_int 0 / 60"
      by (simp add: ShiftEnd_minutes_before_breaks_def Let_def timestamp_def on_date_of_def)
    then show ?thesis
      using before w by (intro exI [of _ 0]) simp
  next
    case inside
    then have "day_minutes (ShiftEnd_minutes_before_breaks d) = of_int (?t - day_start d) / 60"
      using w t by (simp add: ShiftEnd_minutes_before_breaks_def Let_def timestamp_def
          on_date_of_def td_seconds_def)
    then show ?thesis
      using inside w by (intro exI [of _ "?t - day_start d"]) simp
  next
    case after
    then have "day_minutes (ShiftEnd_minutes_before_breaks d)
        = of_int (day_end d - day_start d) / 60"
      using w by (simp add: ShiftEnd_minutes_before_breaks_def Let_def timestamp_def
          on_date_of_def td_seconds_def)
    then show ?thesis
      using after w by (intro exI [of _ "day_end d - day_start d"]) simp
  qed
qed

lemma ShiftEnd_day_minutes_nonneg:
  assumes "wf_window d" and "1 \<le> break_duration_in_hours d"
    and "valid_datetime (shift_end d)"
    and "ShiftEnd_get_minutes_worked d (get_break_timings d) = Inr mw"
  shows "0 \<le> day_minutes mw"
proof -
  let ?e = "hm (dt_hour (shift_end d)) (dt_minute (shift_end d))"
  let ?g = "break_duration_in_hours d * 3600"
  obtain ts where g: "get_break_timings d = (ts, None)"
    using consume_Inr [OF assms(4) [unfolded ShiftEnd_get_minutes_worked_def]]
    by (cases "get_break_timings d") simp
  let ?k = "filter (\<lambda>t. \<not> ?e - ?g < t) ts"
  have s: "sorted_wrt (\<lambda>a b. a + ?g \<le> b) ts"
    using full_breaks_spaced [OF assms(2)] g by simp
  obtain X where X: "day_minutes (ShiftEnd_minutes_before_breaks d) = of_int X / 60"
    "0 \<le> X" "min (day_end d) (time_of_day (shift_end d)) - day_start d \<le> X"
    using ShiftEnd_day_seconds [OF assms(1,3)] by blast
  have "int (length (filter (in_day d) ?k)) * ?g \<le> X"
  proof (rule bucket_bound [where lo = "day_start d"
        and hi = "min (day_end d) (time_of_day (shift_end d))"])
    show "sorted_wrt (\<lambda>a b. a + ?g \<le> b) ?k"
      by (rule sorted_wrt_filter [OF s])
    show "day_start d \<le> t \<and> t + ?g \<le> min (day_end d) (time_of_day (shift_end d))"
      if "t \<in> set ?k" "in_day d t" for t
      using that hm_le_time_of_day(1) [OF assms(3)] by (simp add: in_day_def)
  qed (use X in simp_all)
  then have "(0::rat) \<le> of_int X / 60
      - of_int (break_duration_in_hours d * 60) * of_nat (length (filter (in_day d) ?k))"
    by (rule minutes_nonneg)
  moreover have "day_minutes mw = day_minutes (ShiftEnd_minutes_before_breaks d)
      - of_int (break_duration_in_hours d * 60) * of_nat (length (filter (in_day d) ?k))"
    using assms(4) unfolding g ShiftEnd_get_minutes_worked_eq by auto
  ultimately show ?thesis
    by (simp add: X(1))
qed

lemma HalfDay_breaks_spaced:
  assumes "1 \<le> break_duration_in_hours d" and "work_duration_in_hours d \<noteq> 0"
    and "same_date (half_shift_start d) (half_shift_end d)"
    and "valid_datetime (half_shift_start d)" and "valid_datetime (half_shift_end d)"
    and "timestamp (half_shift_start d) \<le> timestamp (half_shift_end d)"
  shows "snd (HalfDay_get_break_timings d) = None \<and>
         spaced_from (break_duration_in_hours d * 3600)
           (hm (dt_hour (half_shift_start d)) (dt_minute (half_shift_start d)) + 3600)
           (time_of_day (half_shift_end d))
           (filter (\<lambda>t. t \<noteq> hm (dt_hour (half_shift_start d)) (dt_minute (half_shift_start d)))
              (fst (HalfDay_get_break_timings d)))"
proof -
  let ?h = "dt_hour (half_shift_start d)" and ?m = "dt_minute (half_shift_start d)"
  let ?D = "time_of_day (half_shift_end d) - time_of_day (half_shift_start d)"
  let ?mk = "\<lambda>hour. strptime_HM (hour + ?h) ?m"
  have D: "td_seconds (timestamp (half_shift_end d) - timestamp (half_shift_start d)) = ?D"
    "0 \<le> ?D"
    using same_day_shift_seconds [OF assms(3-6)] by simp_all
  have v: "0 \<le> ?h" "?h * 3600 \<le> time_of_day (half_shift_start d)"
    "hm ?h ?m \<le> time_of_day (half_shift_start d)" "time_of_day (half_shift_end d) < 86400"
    using assms(4) time_of_day_range [OF assms(5)]
    by (simp_all add: valid_datetime_def time_of_day_def hms_def hm_def)
  show ?thesis
  proof (cases "work_duration_in_hours d * 3600
      < timestamp (half_shift_end d) - timestamp (half_shift_start d)")
    case True
    have n: "int (nat (?D div 3600)) = ?D div 3600" "(?D div 3600) * 3600 \<le> ?D"
      using D(2) by (simp_all add: pos_imp_zdiv_nonneg_iff)
    have mk: "?mk k = Inr (hm ?h ?m + k * 3600)"
      if "0 \<le> k" "k < 0 + int (nat (?D div 3600))" for k
    proof -
      have "k + 1 \<le> ?D div 3600"
        using that n(1) by simp
      then have "(k + 1) * 3600 \<le> (?D div 3600) * 3600"
        by simp
      then have "(k + 1) * 3600 \<le> ?D"
        using n(2) by linarith
      then have "k + ?h < 24"
        using v by simp
      then show ?thesis
        by (simp add: strptime_HM_lt24 hm_def algebra_simps)
    qed
    have "snd (break_loop (work_duration_in_hours d) (break_duration_in_hours d) ?mk
             (nat (?D div 3600)) 0 False 0 0) = None"
      by (rule break_loop_no_error) (use mk in auto)
    moreover have "spaced_from (break_duration_in_hours d * 3600) (hm ?h ?m + (0 + 1) * 3600)
            (hm ?h ?m + (0 + int (nat (?D div 3600))) * 3600)
            (fst (break_loop (work_duration_in_hours d) (break_duration_in_hours d) ?mk
               (nat (?D div 3600)) 0 False 0 0))"
      by (rule break_loop_spaced_start [OF assms(1)]) (use assms(2) mk in auto)
    then have "spaced_from (break_duration_in_hours d * 3600) (hm ?h ?m + 3600)
            (time_of_day (half_shift_end d))
            (fst (break_loop (work_duration_in_hours d) (break_duration_in_hours d) ?mk
               (nat (?D div 3600)) 0 False 0 0))"
      by (rule spaced_from_weaken) (use n v in simp_all)
    ultimately show ?thesis
      using True by (simp add: HalfDay_get_break_timings_def Let_def D(1) spaced_from_filter)
  next
    case False
    then show ?thesis
      by (simp add: HalfDay_get_break_timings_def Let_def)
  qed
qed

lemma HalfDay_day_seconds:
  assumes "wf_window d"
    and "same_date (half_shift_start d) (half_shift_end d)"
    and "valid_datetime (half_shift_start d)" and "valid_datetime (half_shift_end d)"
    and "timestamp (half_shift_start d) \<le> timestamp (half_shift_end d)"
    and "HalfDay_day_minutes d = Inr dm"
  shows "\<exists>X. dm = of_int X / 60 \<and> 0 \<le> X \<and>
           min (day_end d) (time_of_day (half_shift_end d))
             - max (day_start d) (time_of_day (half_shift_start d)) \<le> X"
proof -
  let ?s = "time_of_day (half_shift_start d)" and ?e = "time_of_day (half_shift_end d)"
  have w: "0 \<le> day_start d" "day_start d \<le> day_end d" "day_end d < 86400"
    using assms(1) by (simp_all add: wf_window_def)
  have t: "0 \<le> ?s" "?s < 86400" "0 \<le> ?e" "?e < 86400" "?s \<le> ?e"
    using time_of_day_range [OF assms(3)] time_of_day_range [OF assms(4)]
      same_day_shift_seconds(2) [OF assms(2-5)]
    by simp_all
  have o: "toordinal (half_shift_end d) = toordinal (half_shift_start d)"
    using same_date_toordinal [OF assms(2)] by simp
  note defs = HalfDay_day_minutes_def Let_def timestamp_def on_date_of_def o td_seconds_def
  consider (none) "day_end d \<le> ?s \<or> ?e \<le> day_start d"
    | (window) "\<not> (day_end d \<le> ?s \<or> ?e \<le> day_start d)" "?s < day_start d" "day_end d < ?e"
    | (shift) "\<not> (day_end d \<le> ?s \<or> ?e \<le> day_start d)" "day_start d < ?s" "?e < day_end d"
    | (tail) "\<not> (day_end d \<le> ?s \<or> ?e \<le> day_start d)" "day_start d < ?s" "day_end d < ?e"
    | (head) "\<not> (day_end d \<le> ?s \<or> ?e \<le> day_start d)" "?s < day_start d" "?e < day_end d"
    | (other) "\<not> (day_end d \<le> ?s \<or> ?e \<le> day_start d)"
        "\<not> (?s < day_start d \<and> day_end d < ?e)" "\<not> (day_start d < ?s \<and> ?e < day_end d)"
        "\<not> (day_start d < ?s \<and> day_end d < ?e)" "\<not> (?s < day_start d \<and> ?e < day_end d)"
    by blast
  then show ?thesis
  proof cases
    case none
    then have "HalfDay_day_minutes d = Inr (of_int 0 / 60)"
      by (simp add: defs)
    then show ?thesis
      using assms(6) none by (intro exI [of _ 0]) auto
  next
    case window
    then have "HalfDay_day_minutes d = Inr (of_int (day_end d - day_start d) / 60)"
      using w t by (simp add: defs)
    then show ?thesis
      using assms(6) w by (intro exI [of _ "day_end d - day_start d"]) auto
  next
    case shift
    then have "HalfDay_day_minutes d = Inr (of_int (?e - ?s) / 60)"
      using w t by (simp add: defs)
    then show ?thesis
      using assms(6) t by (intro exI [of _ "?e - ?s"]) auto
  next
    case tail
    then have "HalfDay_day_minutes d = Inr (of_int (day_end d - ?s) / 60)"
      using w t by (simp add: defs)
    then show ?thesis
      using assms(6) tail by (intro exI [of _ "day_end d - ?s"]) auto
  next
    case head
    then have "HalfDay_day_minutes d = Inr (of_int (?e - day_start d) / 60)"
      using w t by (simp add: defs)
    then show ?thesis
      using assms(6) head by (intro exI [of _ "?e - day_start d"]) auto
  next
    case other
    then have "HalfDay_day_minutes d = Inl UnboundLocalError"
      by (simp add: defs)
    then show ?thesis
      using assms(6) by simp
  qed
qed

lemma HalfDay_day_minutes_nonneg:
  assumes "wf_window d" and "break_duration_in_hours d = 1" and "work_duration_in_hours d \<noteq> 0"
    and "same_date (half_shift_start d) (half_shift_end d)"
    and "valid_datetime (half_shift_start d)" and "valid_datetime (half_shift_end d)"
    and "timestamp (half_shift_start d) \<le> timestamp (half_shift_end d)"
    and "HalfDay_get_minutes_worked d (HalfDay_get_break_timings d) = Inr mw"
  shows "0 \<le> day_minutes mw"
proof -
  let ?s = "hm (dt_hour (half_shift_start d)) (dt_minute (half_shift_start d))"
  obtain mw0 where mw0: "HalfDay_minutes_before_breaks d = Inr mw0"
    using assms(8) by (auto simp add: HalfDay_get_minutes_worked_def split: sum.splits)
  then obtain dm where dm: "HalfDay_day_minutes d = Inr dm" "day_minutes mw0 = dm"
    by (auto simp add: HalfDay_minutes_before_breaks_def split: sum.splits)
  have b: "1 \<le> break_duration_in_hours d"
    using assms(2) by simp
  have sp: "snd (HalfDay_get_break_timings d) = None"
    "spaced_from (break_duration_in_hours d * 3600) (?s + 3600)
       (time_of_day (half_shift_end d))
       (filter (\<lambda>t. t \<noteq> ?s) (fst (HalfDay_get_break_timings d)))"
    using HalfDay_breaks_spaced [OF b assms(3-7)] by simp_all
  obtain ts where g: "HalfDay_get_break_timings d = (ts, None)"
    using sp(1) by (cases "HalfDay_get_break_timings d") simp
  let ?k = "filter (\<lambda>t. t \<noteq> ?s) ts"
  obtain X where X: "dm = of_int X / 60" "0 \<le> X"
    "min (day_end d) (time_of_day (half_shift_end d))
       - max (day_start d) (time_of_day (half_shift_start d)) \<le> X"
    using HalfDay_day_seconds [OF assms(1,4-7) dm(1)] by blast
  have "int (length (filter (in_day_closed d) ?k)) * (break_duration_in_hours d * 3600) \<le> X"
  proof (rule bucket_bound [where lo = "max (day_start d) (time_of_day (half_shift_start d))"
        and hi = "min (day_end d) (time_of_day (half_shift_end d))"])
    show "sorted_wrt (\<lambda>a b. a + break_duration_in_hours d * 3600 \<le> b) ?k"
      using sp(2) g by (simp add: spaced_from_def)
    show "max (day_start d) (time_of_day (half_shift_start d)) \<le> t \<and>
          t + break_duration_in_hours d * 3600
            \<le> min (day_end d) (time_of_day (half_shift_end d))"
      if "t \<in> set ?k" "in_day_closed d t" for t
    proof -
      have "?s + 3600 \<le> t" "t + 3600 \<le> time_of_day (half_shift_end d)"
        using sp(2) g that(1) by (simp_all add: spaced_from_def)
      then show ?thesis
        using that(2) hm_le_time_of_day(2) [OF assms(5)] assms(2)
        by (simp add: in_day_closed_def)
    qed
  qed (use X in simp_all)
  then have "(0::rat) \<le> of_int X / 60
      - of_int (break_duration_in_hours d * 60)
          * of_nat (length (filter (in_day_closed d) ?k))"
    by (rule minutes_nonneg)
  moreover have "day_minutes mw = day_minutes mw0
      - of_int (break_duration_in_hours d * 60)
          * of_nat (length (filter (in_day_closed d) ?k))"
    using assms(8) unfolding g HalfDay_get_minutes_worked_eq [OF mw0] by auto
  ultimately show ?thesis
    by (simp add: X(1) dm(2))
qed

text \<open>
  C9, as stated, fails: a break is charged whole to the night minutes whenever it starts
  outside the interval of C1, also when it lies partly or wholly in the day window. The
  shift from 2038-01-01T14:30:00 to 2038-01-01T23:40:00 against the window 07:00:00 to
  23:00:00 has 40 night minutes and a break from 22:30 to 23:30; 60 minutes are taken
  from the 40, and -20 night minutes are returned.
\<close>

theorem C9_negative_night_minutes:
  "wf_window
     (RobotWorkHalfDay_init (mk_datetime 2038 1 1 14 30 0) (mk_datetime 2038 1 1 23 40 0)
        (hms 7 0 0) (hms 23 0 0) 20 25 None None None) \<and>
   valid_datetime (mk_datetime 2038 1 1 14 30 0) \<and>
   valid_datetime (mk_datetime 2038 1 1 23 40 0) \<and>
   same_date (mk_datetime 2038 1 1 14 30 0) (mk_datetime 2038 1 1 23 40 0) \<and>
   timestamp (mk_datetime 2038 1 1 14 30 0) < timestamp (mk_datetime 2038 1 1 23 40 0) \<and>
   HalfDay_get_break_timings
     (RobotWorkHalfDay_init (mk_datetime 2038 1 1 14 30 0) (mk_datetime 2038 1 1 23 40 0)
        (hms 7 0 0) (hms 23 0 0) 20 25 None None None) = ([hm 22 30], None) \<and>
   HalfDay_get_minutes_worked
     (RobotWorkHalfDay_init (mk_datetime 2038 1 1 14 30 0) (mk_datetime 2038 1 1 23 40 0)
        (hms 7 0 0) (hms 23 0 0) 20 25 None None None)
     (HalfDay_get_break_timings
        (RobotWorkHalfDay_init (mk_datetime 2038 1 1 14 30 0) (mk_datetime 2038 1 1 23 40 0)
           (hms 7 0 0) (hms 23 0 0) 20 25 None None None))
     = Inr \<lparr>day_minutes = 510, night_minutes = - 20\<rparr>"
  by (simp add: halfday_eval wf_window_def valid_datetime_def days_in_month_def same_date_def)

text \<open>
  C9, amended: the day minutes returned are not negative, for a day window whose start
  is not after its end, a break duration and a work duration of at least one hour, a
  valid shift timestamp, and, for a shift within one day, a break duration of one hour
  and a start not after the end. (A full day and a last day return minutes only for a
  \<^verbatim>\<open>time_of_last_break\<close> that the generator accepts, a shift within one day only where
  its case split assigns the day minutes.)
\<close>

theorem C9_day_minutes_nonnegative:
  "(wf_window f \<and> 1 \<le> break_duration_in_hours f \<and>
    get_minutes_worked f (get_break_timings f) = Inr mwF \<longrightarrow> 0 \<le> day_minutes mwF) \<and>
   (wf_window a \<and> 1 \<le> break_duration_in_hours a \<and> 1 \<le> work_duration_in_hours a \<and>
    valid_datetime (shift_start a) \<and>
    ShiftStart_get_minutes_worked a (ShiftStart_get_break_timings a) = Inr mwS \<longrightarrow>
      0 \<le> day_minutes mwS) \<and>
   (wf_window b \<and> 1 \<le> break_duration_in_hours b \<and> valid_datetime (shift_end b) \<and>
    ShiftEnd_get_minutes_worked b (get_break_timings b) = Inr mwE \<longrightarrow> 0 \<le> day_minutes mwE) \<and>
   (wf_window c \<and> break_duration_in_hours c = 1 \<and> 1 \<le> work_duration_in_hours c \<and>
    same_date (half_shift_start c) (half_shift_end c) \<and>
    valid_datetime (half_shift_start c) \<and> valid_datetime (half_shift_end c) \<and>
    timestamp (half_shift_start c) \<le> timestamp (half_shift_end c) \<and>
    HalfDay_get_minutes_worked c (HalfDay_get_break_timings c) = Inr mwC \<longrightarrow>
      0 \<le> day_minutes mwC)"
proof (intro conjI impI)
  assume "wf_window f \<and> 1 \<le> break_duration_in_hours f \<and>
    get_minutes_worked f (get_break_timings f) = Inr mwF"
  then show "0 \<le> day_minutes mwF"
    using full_day_minutes_nonneg [of f mwF] by blast
next
  assume h: "wf_window a \<and> 1 \<le> break_duration_in_hours a \<and> 1 \<le> work_duration_in_hours a \<and>
    valid_datetime (shift_start a) \<and>
    ShiftStart_get_minutes_worked a (ShiftStart_get_break_timings a) = Inr mwS"
  then have "work_duration_in_hours a \<noteq> 0" by auto
  then show "0 \<le> day_minutes mwS"
    using h ShiftStart_day_minutes_nonneg [of a mwS] by blast
next
  assume "wf_window b \<and> 1 \<le> break_duration_in_hours b \<and> valid_datetime (shift_end b) \<and>
    ShiftEnd_get_minutes_worked b (get_break_timings b) = Inr mwE"
  then show "0 \<le> day_minutes mwE"
    using ShiftEnd_day_minutes_nonneg [of b mwE] by blast
next
  assume h: "wf_window c \<and> break_duration_in_hours c = 1 \<and> 1 \<le> work_duration_in_hours c \<and>
    same_date (half_shift_start c) (half_shift_end c) \<and>
    valid_datetime (half_shift_start c) \<and> valid_datetime (half_shift_end c) \<and>
    timestamp (half_shift_start c) \<le> timestamp (half_shift_end c) \<and>
    HalfDay_get_minutes_worked c (HalfDay_get_break_timings c) = Inr mwC"
  then have "work_duration_in_hours c \<noteq> 0" by auto
  then show "0 \<le> day_minutes mwC"
    using h HalfDay_day_minutes_nonneg [of c mwC] by blast
qed

theorem C9_day_minutes_nonnegative_witness:
  "wf_window (day_1\<lparr>time_of_last_break := HHMM 20 0\<rparr>) \<and>
   break_duration_in_hours (day_1\<lparr>time_of_last_break := HHMM 20 0\<rparr>) = 1 \<and>
   get_minutes_worked (day_1\<lparr>time_of_last_break := HHMM 20 0\<rparr>)
       (get_break_timings (day_1\<lparr>time_of_last_break := HHMM 20 0\<rparr>))
     = Inr \<lparr>day_minutes = 900, night_minutes = 360\<rparr> \<and>
   wf_window day_2 \<and> break_duration_in_hours day_2 = 1 \<and> work_duration_in_hours day_2 = 8 \<and>
   valid_datetime (shift_start day_2) \<and>
   ShiftStart_get_minutes_worked day_2 (ShiftStart_get_break_timings day_2)
     = Inr \<lparr>day_minutes = 165, night_minutes = 60\<rparr> \<and>
   wf_window day_3 \<and> break_duration_in_hours day_3 = 1 \<and> valid_datetime (shift_end day_3) \<and>
   ShiftEnd_get_minutes_worked day_3 (get_break_timings day_3)
     = Inr \<lparr>day_minutes = 105, night_minutes = 360\<rparr> \<and>
   wf_window day_4 \<and> break_duration_in_hours day_4 = 1 \<and> work_duration_in_hours day_4 = 8 \<and>
   same_date (half_shift_start day_4) (half_shift_end day_4) \<and>
   valid_datetime (half_shift_start day_4) \<and> valid_datetime (half_shift_end day_4) \<and>
   timestamp (half_shift_start day_4) \<le> timestamp (half_shift_end day_4) \<and>
   HalfDay_get_minutes_worked day_4 (HalfDay_get_break_timings day_4)
     = Inr \<lparr>day_minutes = 840, night_minutes = 275\<rparr> \<and>
   (0::rat) \<le> day_minutes \<lparr>day_minutes = 900, night_minutes = 360\<rparr> \<and>
   (0::rat) \<le> day_minutes \<lparr>day_minutes = 165, night_minutes = 60\<rparr> \<and>
   (0::rat) \<le> day_minutes \<lparr>day_minutes = 105, night_minutes = 360\<rparr> \<and>
   (0::rat) \<le> day_minutes \<lparr>day_minutes = 840, night_minutes = 275\<rparr>"
proof -
  let ?f = "day_1\<lparr>time_of_last_break := HHMM 20 0\<rparr>"
  have f: "wf_window ?f" "break_duration_in_hours ?f = 1"
    "get_minutes_worked ?f (get_break_timings ?f) = Inr \<lparr>day_minutes = 900, night_minutes = 360\<rparr>"
    by (simp_all add: day_1_def wf_window_def datetime_eval total_eval)
  have a: "wf_window day_2" "break_duration_in_hours day_2 = 1" "work_duration_in_hours day_2 = 8"
    "valid_datetime (shift_start day_2)"
    "ShiftStart_get_minutes_worked day_2 (ShiftStart_get_break_timings day_2)
       = Inr \<lparr>day_minutes = 165, night_minutes = 60\<rparr>"
    by (simp_all add: day_2_def wf_window_def valid_datetime_def days_in_month_def
        datetime_eval total_eval)
  have b: "wf_window day_3" "break_duration_in_hours day_3 = 1" "valid_datetime (shift_end day_3)"
    "ShiftEnd_get_minutes_worked day_3 (get_break_timings day_3)
       = Inr \<lparr>day_minutes = 105, night_minutes = 360\<rparr>"
    by (simp_all add: day_3_def wf_window_def valid_datetime_def days_in_month_def
        datetime_eval total_eval)
  have c: "wf_window day_4" "break_duration_in_hours day_4 = 1" "work_duration_in_hours day_4 = 8"
    "same_date (half_shift_start day_4) (half_shift_end day_4)"
    "valid_datetime (half_shift_start day_4)" "valid_datetime (half_shift_end day_4)"
    "timestamp (half_shift_start day_4) \<le> timestamp (half_shift_end day_4)"
    "HalfDay_get_minutes_worked day_4 (HalfDay_get_break_timings day_4)
       = Inr \<lparr>day_minutes = 840, night_minutes = 275\<rparr>"
    by (simp_all add: day_4_def wf_window_def valid_datetime_def days_in_month_def same_date_def
        halfday_eval)
  have "(0::rat) \<le> day_minutes \<lparr>day_minutes = 900, night_minutes = 360\<rparr> \<and>
      (0::rat) \<le> day_minutes \<lparr>day_minutes = 165, night_minutes = 60\<rparr> \<and>
      (0::rat) \<le> day_minutes \<lparr>day_minutes = 105, night_minutes = 360\<rparr> \<and>
      (0::rat) \<le> day_minutes \<lparr>day_minutes = 840, night_minutes = 275\<rparr>"
    using C9_day_minutes_nonnegative [of ?f "\<lparr>day_minutes = 900, night_minutes = 360\<rparr>"
        day_2 "\<lparr>day_minutes = 165, night_minutes = 60\<rparr>"
        day_3 "\<lparr>day_minutes = 105, night_minutes = 360\<rparr>"
        day_4 "\<lparr>day_minutes = 840, night_minutes = 275\<rparr>"] f a b c
    by simp
  then show ?thesis
    using f a b c by blast
qed

end
